theory Spec2Isabelle
  imports Main "HOL-Library.Word" "HOL-Library.Signed_Division"
begin

section \<open>Machine integers of the C++ source\<close>

text \<open>
  The engine computes on \<^verbatim>\<open>int\<close> (heights, months, points), on \<^verbatim>\<open>int64_t\<close>
  (\<^verbatim>\<open>CAmount\<close>, block times) and on \<^verbatim>\<open>uint32_t\<close> (the block counter). They are
  words of that width: \<open>+\<close>, \<open>-\<close> and \<open>*\<close> wrap around, \<open>sint\<close> reads the two's
  complement value, and the signed comparisons are \<open><s\<close> and \<open>\<le>s\<close>.
\<close>

type_synonym byte = "8 word"
type_synonym int32_t = "32 word"
type_synonym int64_t = "64 word"
type_synonym uint32_t = "32 word"

text \<open>C++ \<^verbatim>\<open>/\<close> on signed integers truncates towards zero.\<close>

definition cpp_div :: "'a::len word \<Rightarrow> 'a word \<Rightarrow> 'a word" where
  "cpp_div a b = word_of_int (sint a sdiv sint b)"

text \<open>\<^verbatim>\<open>std::clamp(v, lo, hi)\<close>, \<^verbatim>\<open>std::max(a, b)\<close> and \<^verbatim>\<open>std::min(a, b)\<close> on \<^verbatim>\<open>int\<close>.\<close>

definition clamp :: "int32_t \<Rightarrow> int32_t \<Rightarrow> int32_t \<Rightarrow> int32_t" where
  "clamp v lo hi = (if v <s lo then lo else if hi <s v then hi else v)"

definition std_max :: "int32_t \<Rightarrow> int32_t \<Rightarrow> int32_t" where
  "std_max a b = (if a <s b then b else a)"

definition std_min :: "int32_t \<Rightarrow> int32_t \<Rightarrow> int32_t" where
  "std_min a b = (if b <s a then b else a)"

section \<open>Data model (pol.h)\<close>

record MinerTagStatus =
  seen :: bool
  first_seen_height :: int32_t
  last_seen_height :: int32_t
  blocks_seen :: uint32_t
  last_seen_time :: int64_t
  points :: int32_t
  last_seen_month :: int32_t

text \<open>The member initialisers of the struct: what \<^verbatim>\<open>g_tag_state[key]\<close> creates for a new key.\<close>

definition MinerTagStatus_init :: MinerTagStatus where
  "MinerTagStatus_init =
     \<lparr>seen = False, first_seen_height = - 1, last_seen_height = - 1, blocks_seen = 0,
      last_seen_time = 0, points = 0, last_seen_month = - 1\<rparr>"

text \<open>\<^verbatim>\<open>g_tag_state\<close>: the table from hex key to status.\<close>

type_synonym ledger = "string \<rightharpoonup> MinerTagStatus"

text \<open>The parts of a block that the engine reads. A \<^verbatim>\<open>CTransactionRef\<close> may be null.\<close>

record CTxOut =
  nValue :: int64_t
  scriptPubKey :: "byte list"

record CTransaction =
  vout :: "CTxOut list"

record CBlock =
  vtx :: "CTransaction option list"

text \<open>
  Collaborators of the engine that are not part of the sources at hand, taken as
  parameters: the two configuration values as \<^verbatim>\<open>gArgs.GetIntArg\<close> returns them, the
  script reader \<^verbatim>\<open>CScript::GetOp\<close> (from a position in a script to the opcode, the
  pushed bytes and the position after them, or failure), \<^verbatim>\<open>HexStr\<close>, and the emission
  schedule \<^verbatim>\<open>GetBlockSubsidy\<close> at the node's consensus parameters.
\<close>

record externals =
  arg_pol_startheight :: int64_t
  arg_pol_monthblocks :: int64_t
  GetOp :: "byte list \<Rightarrow> (byte \<times> byte list \<times> byte list) option"
  HexStr :: "byte list \<Rightarrow> string"
  GetBlockSubsidy :: "int32_t \<Rightarrow> int64_t"

text \<open>
  Modelled from the spec: the "null-data marker opcode" \<^verbatim>\<open>OP_RETURN\<close>, whose declaration
  (script/script.h) is not among the sources; 0x6a is its value in the script encoding.
\<close>

definition OP_RETURN :: byte where
  "OP_RETURN = 0x6a"

section \<open>Configuration and periods (pol.cpp)\<close>

text \<open>Both accessors return \<^verbatim>\<open>int\<close>: the 64-bit argument is narrowed to its low 32 bits.\<close>

definition GetPolStartHeight :: "externals \<Rightarrow> int32_t" where
  "GetPolStartHeight E = ucast (arg_pol_startheight E)"

definition GetPolMonthBlocks :: "externals \<Rightarrow> int32_t" where
  "GetPolMonthBlocks E = ucast (arg_pol_monthblocks E)"

definition MonthIndex :: "int32_t \<Rightarrow> int32_t \<Rightarrow> int32_t" where
  "MonthIndex height month_blocks =
     (if month_blocks \<le>s 0 then 0
      else if height <s 0 then 0
      else cpp_div height month_blocks)"

section \<open>Tag extraction (pol.cpp)\<close>

definition kMflexId :: "byte list" where
  "kMflexId = [0x4D, 0x46, 0x4C, 0x45, 0x58, 0x49, 0x44]"

text \<open>
  The body of the loop over the coinbase outputs, for one output: \<open>Some tag\<close> is the
  \<^verbatim>\<open>return\<close>, \<open>None\<close> is every \<^verbatim>\<open>continue\<close> and the fall-through of the last \<^verbatim>\<open>if\<close>.
\<close>

definition tag_of_output :: "externals \<Rightarrow> CTxOut \<Rightarrow> byte list option" where
  "tag_of_output E out =
     (case GetOp E (scriptPubKey out) of
        None \<Rightarrow> None
      | Some (op, unused, it) \<Rightarrow>
          if op \<noteq> OP_RETURN then None
          else (case GetOp E it of
                  None \<Rightarrow> None
                | Some (op2, push, it2) \<Rightarrow>
                    if length push < length kMflexId + 4 then None
                    else if take (length kMflexId) push \<noteq> kMflexId then None
                    else (let tag_len = length push - length kMflexId
                          in if tag_len = 4 \<or> tag_len = 8 \<or> tag_len = 12
                             then Some (drop (length kMflexId) push)
                             else None)))"

fun scan_outputs :: "externals \<Rightarrow> CTxOut list \<Rightarrow> byte list option" where
  "scan_outputs E [] = None"
| "scan_outputs E (out # outs) =
     (case tag_of_output E out of
        Some tag \<Rightarrow> Some tag
      | None \<Rightarrow> scan_outputs E outs)"

definition ExtractMinerTagFromBlock :: "externals \<Rightarrow> CBlock \<Rightarrow> byte list option" where
  "ExtractMinerTagFromBlock E block =
     (case vtx block of
        [] \<Rightarrow> None
      | None # rest \<Rightarrow> None
      | Some coinbase # rest \<Rightarrow>
          if vout coinbase = [] then None else scan_outputs E (vout coinbase))"

section \<open>The ledger update (pol.cpp)\<close>

text \<open>
  Lines 115 to 134 of \<^verbatim>\<open>OnConnectBlock\<close>: what happens to the entry \<^verbatim>\<open>s\<close> of the tag,
  under the lock.
\<close>

definition update_entry :: "int32_t \<Rightarrow> int32_t \<Rightarrow> int64_t \<Rightarrow> MinerTagStatus \<Rightarrow> MinerTagStatus" where
  "update_entry cur_month height block_time s =
     (let s1 =
        (if \<not> seen s then
           s\<lparr>seen := True, first_seen_height := height, last_seen_month := cur_month,
             points := clamp (points s + 2) 0 24\<rparr>
         else if last_seen_month s <s cur_month then
           (let missed = cur_month - last_seen_month s - 1;
                p1 = (if 0 <s missed then points s - missed * 1 else points s);
                p2 = p1 + 2
            in s\<lparr>points := clamp p2 0 24, last_seen_month := cur_month\<rparr>)
         else s)
      in s1\<lparr>last_seen_height := height, last_seen_time := block_time,
             blocks_seen := blocks_seen s1 + 1\<rparr>)"

definition OnConnectBlock ::
  "externals \<Rightarrow> CBlock \<Rightarrow> int32_t \<Rightarrow> int64_t \<Rightarrow> ledger \<Rightarrow> ledger" where
  "OnConnectBlock E block height block_time g =
     (if height <s GetPolStartHeight E then g
      else (case ExtractMinerTagFromBlock E block of
              None \<Rightarrow> g
            | Some tag \<Rightarrow>
                (let key = HexStr E tag;
                     month_blocks = GetPolMonthBlocks E;
                     cur_month = MonthIndex height month_blocks;
                     s = (case g key of None \<Rightarrow> MinerTagStatus_init | Some s0 \<Rightarrow> s0)
                 in g(key \<mapsto> update_entry cur_month height block_time s))))"

text \<open>A sequence of connected blocks, each with its height and time, applied in order.\<close>

definition connect_all ::
  "externals \<Rightarrow> (CBlock \<times> int32_t \<times> int64_t) list \<Rightarrow> ledger \<Rightarrow> ledger" where
  "connect_all E calls g = foldl (\<lambda>g' (block, height, block_time). OnConnectBlock E block height block_time g') g calls"

section \<open>Queries (pol.cpp)\<close>

text \<open>
  \<^verbatim>\<open>GetMinerTagStatus\<close> takes the lock and looks the key up with \<^verbatim>\<open>find\<close>. It is a
  function of the table that returns its answer together with the table it leaves
  behind.
\<close>

definition GetMinerTagStatus ::
  "externals \<Rightarrow> byte list \<Rightarrow> ledger \<Rightarrow> MinerTagStatus option \<times> ledger" where
  "GetMinerTagStatus E tag g = (let key = HexStr E tag in (g key, g))"

definition GetAllowedSubsidy ::
  "externals \<Rightarrow> byte list \<Rightarrow> int32_t \<Rightarrow> ledger \<Rightarrow> int64_t" where
  "GetAllowedSubsidy E tag height g =
     (let S = GetBlockSubsidy E height;
          S_base = cpp_div S 2;
          S_loyal = S - S_base;
          pts = (case fst (GetMinerTagStatus E tag g) of
                   Some st \<Rightarrow> clamp (points st) 0 24
                 | None \<Rightarrow> 0);
          bonus = cpp_div (S_loyal * scast pts) 24
      in S_base + bonus)"

definition GetBaseSubsidy :: "externals \<Rightarrow> int32_t \<Rightarrow> int64_t" where
  "GetBaseSubsidy E height = (let full = GetBlockSubsidy E height in cpp_div full 2)"

section \<open>Level projection (rpc/pol.cpp, qt/loyalitypage.cpp, qt/overviewpage.cpp)\<close>

text \<open>The RPC surface, \<^verbatim>\<open>PolLevelFromPoints(bool seen, int points)\<close> of rpc/pol.cpp.\<close>

definition PolLevelFromPoints_rpc :: "bool \<Rightarrow> int32_t \<Rightarrow> int32_t" where
  "PolLevelFromPoints_rpc is_seen pts =
     (if \<not> is_seen \<or> pts \<le>s 0 then 0
      else (let pts1 = (if 24 <s pts then 24 else pts);
                level = cpp_div (pts1 + 1) 2
            in std_min 12 (std_max 0 level)))"

text \<open>The overview page of the GUI has the same body, with the division inlined.\<close>

definition PolLevelFromPoints_overview :: "bool \<Rightarrow> int32_t \<Rightarrow> int32_t" where
  "PolLevelFromPoints_overview is_seen pts =
     (if \<not> is_seen \<or> pts \<le>s 0 then 0
      else (let pts1 = (if 24 <s pts then 24 else pts)
            in std_min 12 (std_max 0 (cpp_div (pts1 + 1) 2))))"

text \<open>
  The loyalty page of the GUI, \<^verbatim>\<open>PolLevelFromPoints(int points, bool seen)\<close> of
  qt/loyalitypage.cpp: the arguments are swapped and the points are not capped at 24
  before one is added. For a seen tag with \<open>2^31 - 1\<close> points this addition overflows,
  which C++ leaves undefined; what is proved of this function leaves that input out.
\<close>

definition PolLevelFromPoints_loyalty :: "int32_t \<Rightarrow> bool \<Rightarrow> int32_t" where
  "PolLevelFromPoints_loyalty pts is_seen =
     (if \<not> is_seen then 0
      else if pts \<le>s 0 then 0
      else (let lvl = cpp_div (pts + 1) 2;
                lvl1 = (if lvl <s 0 then 0 else lvl);
                lvl2 = (if 12 <s lvl1 then 12 else lvl1)
            in lvl2))"

text \<open>The level as the specification words it, on the integers.\<close>

definition spec_level :: "bool \<Rightarrow> int \<Rightarrow> int" where
  "spec_level is_seen p =
     (if is_seen \<and> 0 < p then max 1 (min 12 ((p + 1) div 2)) else 0)"

section \<open>Rebuild from the active chain (pol.cpp)\<close>

text \<open>
  What the rebuild reads of the chain state: the tip (or null), the index entry of the
  active chain at a height (or null), and the block reader, which may fail.
\<close>

record CBlockIndex =
  nHeight :: int32_t
  GetBlockTime :: int64_t

record ChainstateManager =
  Tip :: "CBlockIndex option"
  chain_at :: "int32_t \<Rightarrow> CBlockIndex option"
  ReadBlock :: "CBlockIndex \<Rightarrow> CBlock option"

text \<open>The body of the \<^verbatim>\<open>for\<close> loop at one height.\<close>

definition rebuild_step :: "externals \<Rightarrow> ChainstateManager \<Rightarrow> int32_t \<Rightarrow> ledger \<Rightarrow> ledger" where
  "rebuild_step E cm height g =
     (case chain_at cm height of
        None \<Rightarrow> g
      | Some pindex \<Rightarrow>
          (case ReadBlock cm pindex of
             None \<Rightarrow> g
           | Some block \<Rightarrow> OnConnectBlock E block height (GetBlockTime pindex) g))"

text \<open>
  \<^verbatim>\<open>for (int height = start_height; height <= tip->nHeight; ++height)\<close>. The counter is
  an \<^verbatim>\<open>int\<close>: at a tip of height \<open>2^31 - 1\<close> the increment wraps and the loop does not
  end, so the loop is a partial function and \<open>None\<close> stands for not returning.
\<close>

partial_function (option) rebuild_loop ::
  "externals \<Rightarrow> ChainstateManager \<Rightarrow> int32_t \<Rightarrow> int32_t \<Rightarrow> ledger \<Rightarrow> ledger option" where
  "rebuild_loop E cm tip_height height g =
     (if height \<le>s tip_height
      then rebuild_loop E cm tip_height (height + 1) (rebuild_step E cm height g)
      else Some g)"

definition RebuildFromActiveChain ::
  "externals \<Rightarrow> ChainstateManager \<Rightarrow> ledger \<Rightarrow> ledger option" where
  "RebuildFromActiveChain E cm g =
     (case Tip cm of
        None \<Rightarrow> Some g
      | Some tip \<Rightarrow>
          (let g0 = Map.empty;
               start_height = std_max 0 (GetPolStartHeight E)
           in rebuild_loop E cm (nHeight tip) start_height g0))"

text \<open>
  The live path over the same chain: the readable blocks at the heights from \<open>start\<close>
  to \<open>tip_height\<close>, in increasing order, each with its height and its recorded time, as
  the connection of these blocks hands them to \<^const>\<open>OnConnectBlock\<close>.
\<close>

definition readable_blocks ::
  "ChainstateManager \<Rightarrow> int32_t \<Rightarrow> int32_t \<Rightarrow> (CBlock \<times> int32_t \<times> int64_t) list" where
  "readable_blocks cm start tip_height =
     List.map_filter
       (\<lambda>height. case chain_at cm height of
                    None \<Rightarrow> None
                  | Some pindex \<Rightarrow>
                      (case ReadBlock cm pindex of
                         None \<Rightarrow> None
                       | Some block \<Rightarrow> Some (block, height, GetBlockTime pindex)))
       (map word_of_int [sint start ..  sint tip_height])"

section \<open>The extraction as the specification words it\<close>

text \<open>
  An output qualifies if its script begins with the null-data opcode followed by a data
  push whose payload starts with the 7-byte prefix and goes on with exactly 4, 8 or 12
  bytes; these bytes are its tag.
\<close>

definition spec_qualifying_tag :: "externals \<Rightarrow> CTxOut \<Rightarrow> byte list option" where
  "spec_qualifying_tag E out =
     (case GetOp E (scriptPubKey out) of
        None \<Rightarrow> None
      | Some (op, unused, rest) \<Rightarrow>
          (case GetOp E rest of
             None \<Rightarrow> None
           | Some (op2, payload, rest2) \<Rightarrow>
               if op = OP_RETURN \<and> take 7 payload = kMflexId
                  \<and> length (drop 7 payload) \<in> {4, 8, 12}
               then Some (drop 7 payload) else None))"

text \<open>The tag of the first qualifying output of the coinbase, nothing if there is none.\<close>

definition spec_extract :: "externals \<Rightarrow> CBlock \<Rightarrow> byte list option" where
  "spec_extract E block =
     (case vtx block of
        Some coinbase # rest \<Rightarrow>
          (case List.find (\<lambda>out. spec_qualifying_tag E out \<noteq> None) (vout coinbase) of
             Some out \<Rightarrow> spec_qualifying_tag E out
           | None \<Rightarrow> None)
      | _ \<Rightarrow> None)"

section \<open>Concrete collaborators and inputs\<close>

text \<open>
  Modelled from the spec: the script reader behind \<^verbatim>\<open>CScript::GetOp\<close> (script/script.h and
  script/script.cpp) is not among the sources. The spec speaks of an opcode followed by
  "a single data push" and of a "premature end of script"; this reader decodes one
  operation of the script encoding (a direct push of up to 75 bytes, or the three
  length-prefixed pushes) and fails where the script ends early. It stands for the
  parameter \<^const>\<open>GetOp\<close> at concrete inputs only.
\<close>

definition read_push :: "byte \<Rightarrow> nat \<Rightarrow> byte list \<Rightarrow> (byte \<times> byte list \<times> byte list) option" where
  "read_push opcode nSize pc =
     (if length pc < nSize then None else Some (opcode, take nSize pc, drop nSize pc))"

definition GetScriptOp :: "byte list \<Rightarrow> (byte \<times> byte list \<times> byte list) option" where
  "GetScriptOp script =
     (case script of
        [] \<Rightarrow> None
      | opcode # pc \<Rightarrow>
          if unat opcode < 0x4c then read_push opcode (unat opcode) pc
          else if opcode = 0x4c then
            (case pc of
               n0 # pc1 \<Rightarrow> read_push opcode (unat n0) pc1
             | _ \<Rightarrow> None)
          else if opcode = 0x4d then
            (case pc of
               n0 # n1 # pc1 \<Rightarrow> read_push opcode (unat n0 + 256 * unat n1) pc1
             | _ \<Rightarrow> None)
          else if opcode = 0x4e then
            (case pc of
               n0 # n1 # n2 # n3 # pc1 \<Rightarrow>
                 read_push opcode
                   (unat n0 + 256 * unat n1 + 65536 * unat n2 + 16777216 * unat n3) pc1
             | _ \<Rightarrow> None)
          else Some (opcode, [], pc))"

text \<open>
  Modelled from the spec: \<^verbatim>\<open>HexStr\<close> (util/strencodings.h) is not among the sources; two
  lower-case hexadecimal digits per byte. It stands for the parameter \<^const>\<open>HexStr\<close> at
  concrete inputs only.
\<close>

definition hex_digit :: "nat \<Rightarrow> char" where
  "hex_digit n = ''0123456789abcdef'' ! (n mod 16)"

definition HexStr_lower :: "byte list \<Rightarrow> string" where
  "HexStr_lower bs = concat (map (\<lambda>b. [hex_digit (unat b div 16), hex_digit (unat b)]) bs)"

text \<open>
  A configuration with start height 1 and a period of 10 blocks, as in the example of
  the specification, and a schedule of 25 coins of \<open>10^8\<close> units at every height.
\<close>

definition example_externals :: externals where
  "example_externals =
     \<lparr>arg_pol_startheight = 1, arg_pol_monthblocks = 10, GetOp = GetScriptOp,
      HexStr = HexStr_lower, GetBlockSubsidy = (\<lambda>height. 2500000000)\<rparr>"

text \<open>An output that pays 25 coins to a one-byte script, and a marker output with a 4-byte tag.\<close>

definition example_payout :: CTxOut where
  "example_payout = \<lparr>nValue = 2500000000, scriptPubKey = [0x51]\<rparr>"

definition example_tag :: "byte list" where
  "example_tag = [0xDE, 0xAD, 0xBE, 0xEF]"

definition example_marker :: CTxOut where
  "example_marker =
     \<lparr>nValue = 0,
      scriptPubKey = [0x6a, 0x0b, 0x4D, 0x46, 0x4C, 0x45, 0x58, 0x49, 0x44, 0xDE, 0xAD, 0xBE, 0xEF]\<rparr>"

definition example_block :: CBlock where
  "example_block = \<lparr>vtx = [Some \<lparr>vout = [example_payout, example_marker]\<rparr>]\<rparr>"

text \<open>A block whose coinbase carries no marker.\<close>

definition plain_block :: CBlock where
  "plain_block = \<lparr>vtx = [Some \<lparr>vout = [example_payout]\<rparr>]\<rparr>"

text \<open>A chain of three blocks, heights 0 to 2, of which the block at height 1 cannot be read.\<close>

definition example_index :: "int32_t \<Rightarrow> CBlockIndex" where
  "example_index height = \<lparr>nHeight = height, GetBlockTime = 1751758506 + 600 * ucast height\<rparr>"

definition example_chain :: ChainstateManager where
  "example_chain =
     \<lparr>Tip = Some (example_index 2),
      chain_at = (\<lambda>height. if height = 0 \<or> height = 1 \<or> height = 2
                            then Some (example_index height) else None),
      ReadBlock = (\<lambda>pindex. if nHeight pindex = 1 then None else Some example_block)\<rparr>"

section \<open>The table as objects in memory\<close>

text \<open>
  Whether a query hands out a copy or a reference into the table is a question about
  objects, so here the entries are objects at addresses. \<^verbatim>\<open>g_tag_state\<close> maps a key to
  the address of its entry, \<^verbatim>\<open>MinerTagStatus& s = g_tag_state[key]\<close> is that address, and
  the \<^verbatim>\<open>std::optional<MinerTagStatus>\<close> that \<^verbatim>\<open>GetMinerTagStatus\<close> returns by value is a
  new object, initialised from the entry. New objects are placed at the next free
  address.
\<close>

type_synonym addr = nat

record memory =
  objs :: "addr \<rightharpoonup> MinerTagStatus"
  g_tag_state :: "string \<rightharpoonup> addr"
  next_free :: addr

definition empty_memory :: memory where
  "empty_memory = \<lparr>objs = Map.empty, g_tag_state = Map.empty, next_free = 0\<rparr>"

definition new_object :: "MinerTagStatus \<Rightarrow> memory \<Rightarrow> addr \<times> memory" where
  "new_object v M =
     (next_free M, M\<lparr>objs := (objs M)(next_free M \<mapsto> v), next_free := Suc (next_free M)\<rparr>)"

text \<open>\<^verbatim>\<open>g_tag_state.find(key)\<close>: the address of the entry, if there is one.\<close>

definition table_find :: "string \<Rightarrow> memory \<Rightarrow> addr option" where
  "table_find key M = g_tag_state M key"

text \<open>\<^verbatim>\<open>g_tag_state[key]\<close>: the address of the entry, which is created first if there is none.\<close>

definition table_subscript :: "string \<Rightarrow> memory \<Rightarrow> addr \<times> memory" where
  "table_subscript key M =
     (case g_tag_state M key of
        Some a \<Rightarrow> (a, M)
      | None \<Rightarrow>
          (let (a, M1) = new_object MinerTagStatus_init M
           in (a, M1\<lparr>g_tag_state := (g_tag_state M1)(key \<mapsto> a)\<rparr>)))"

text \<open>
  \<^verbatim>\<open>OnConnectBlock\<close> on the objects: the writes of lines 115 to 134 go through the
  reference \<^verbatim>\<open>s\<close>. (An address without an object does not come out of
  \<^const>\<open>table_subscript\<close>; the case is there to make the function total.)
\<close>

definition OnConnectBlock_mem ::
  "externals \<Rightarrow> CBlock \<Rightarrow> int32_t \<Rightarrow> int64_t \<Rightarrow> memory \<Rightarrow> memory" where
  "OnConnectBlock_mem E block height block_time M =
     (if height <s GetPolStartHeight E then M
      else (case ExtractMinerTagFromBlock E block of
              None \<Rightarrow> M
            | Some tag \<Rightarrow>
                (let key = HexStr E tag;
                     month_blocks = GetPolMonthBlocks E;
                     cur_month = MonthIndex height month_blocks;
                     (s, M1) = table_subscript key M
                 in (case objs M1 s of
                       None \<Rightarrow> M1
                     | Some v \<Rightarrow>
                         M1\<lparr>objs := (objs M1)(s \<mapsto> update_entry cur_month height block_time v)\<rparr>))))"

text \<open>
  \<^verbatim>\<open>GetMinerTagStatus\<close> on the objects: \<^verbatim>\<open>find\<close>, then \<^verbatim>\<open>return it->second\<close> into the
  returned optional. The answer is the address of the returned object.
\<close>

definition GetMinerTagStatus_mem ::
  "externals \<Rightarrow> byte list \<Rightarrow> memory \<Rightarrow> addr option \<times> memory" where
  "GetMinerTagStatus_mem E tag M =
     (let key = HexStr E tag
      in (case table_find key M of
            None \<Rightarrow> (None, M)
          | Some it \<Rightarrow>
              (case objs M it of
                 None \<Rightarrow> (None, M)
               | Some v \<Rightarrow> (let (r, M1) = new_object v M in (Some r, M1)))))"

text \<open>The ledger that a memory holds: for each key, the object its entry points to.\<close>

definition ledger_of :: "memory \<Rightarrow> ledger" where
  "ledger_of M = (\<lambda>key. case g_tag_state M key of None \<Rightarrow> None | Some a \<Rightarrow> objs M a)"

text \<open>Runs of the engine: block connections and status queries, in any order.\<close>

datatype pol_call = Connect CBlock int32_t int64_t | Query "byte list"

fun run_call :: "externals \<Rightarrow> pol_call \<Rightarrow> memory \<Rightarrow> memory" where
  "run_call E (Connect block height block_time) M = OnConnectBlock_mem E block height block_time M"
| "run_call E (Query tag) M = snd (GetMinerTagStatus_mem E tag M)"

definition run_calls :: "externals \<Rightarrow> pol_call list \<Rightarrow> memory \<Rightarrow> memory" where
  "run_calls E calls M = foldl (\<lambda>M' c. run_call E c M') M calls"

text \<open>The block connections of a run, without its queries.\<close>

fun connections :: "pol_call list \<Rightarrow> (CBlock \<times> int32_t \<times> int64_t) list" where
  "connections [] = []"
| "connections (Connect block height block_time # calls) =
     (block, height, block_time) # connections calls"
| "connections (Query tag # calls) = connections calls"

text \<open>
  What holds of every memory of a run: each entry of the table points to an object,
  two keys do not share an object, and every object lies below the next free address.
\<close>

definition memory_ok :: "memory \<Rightarrow> bool" where
  "memory_ok M \<longleftrightarrow>
     (\<forall>key a. g_tag_state M key = Some a \<longrightarrow> a \<in> dom (objs M))
     \<and> (\<forall>key key' a. g_tag_state M key = Some a \<and> g_tag_state M key' = Some a \<longrightarrow> key = key')
     \<and> (\<forall>a \<in> dom (objs M). a < next_free M)"

text \<open>An object that the table does not point to.\<close>

definition outside_table :: "addr \<Rightarrow> memory \<Rightarrow> bool" where
  "outside_table a M \<longleftrightarrow> a < next_free M \<and> a \<notin> ran (g_tag_state M)"

text \<open>
  The memory after the example block was connected at height 5, and the memory after a
  query for its tag: the entry is object 0, the returned copy is object 1.
\<close>

definition example_entry :: MinerTagStatus where
  "example_entry =
     \<lparr>seen = True, first_seen_height = 5, last_seen_height = 5, blocks_seen = 1,
      last_seen_time = 7, points = 2, last_seen_month = 0\<rparr>"

definition example_memory :: memory where
  "example_memory =
     \<lparr>objs = [0 \<mapsto> example_entry], g_tag_state = [''deadbeef'' \<mapsto> 0], next_free = 1\<rparr>"

definition example_queried :: memory where
  "example_queried =
     \<lparr>objs = [0 \<mapsto> example_entry, 1 \<mapsto> example_entry],
      g_tag_state = [''deadbeef'' \<mapsto> 0], next_free = 2\<rparr>"

section \<open>The invariant of the ledger\<close>

text \<open>
  What holds of every entry that \<^const>\<open>OnConnectBlock\<close> has written: it is marked seen,
  its points are between 0 and 24, and its last month is not negative.
\<close>

definition entry_ok :: "MinerTagStatus \<Rightarrow> bool" where
  "entry_ok s \<longleftrightarrow>
     seen s \<and> 0 \<le> sint (points s) \<and> sint (points s) \<le> 24 \<and> 0 \<le> sint (last_seen_month s)"

section \<open>Signed arithmetic without overflow\<close>

lemmas signed_cmp = word_sless_alt word_sle_eq

lemma sint32_range: "- 2147483648 \<le> sint (a :: 32 word) \<and> sint a < 2147483648"
  using sint_ge [of a] sint_lt [of a] by simp

lemma sint64_range:
  "- 9223372036854775808 \<le> sint (a :: 64 word) \<and> sint a < 9223372036854775808"
  using sint_ge [of a] sint_lt [of a] by simp

lemma sint32_add:
  "- 2147483648 \<le> sint a + sint b \<Longrightarrow> sint a + sint b < 2147483648 \<Longrightarrow>
   sint (a + b :: 32 word) = sint a + sint b"
  by (simp add: sint_word_add signed_take_bit_int_eq_self)

lemma sint32_diff:
  "- 2147483648 \<le> sint a - sint b \<Longrightarrow> sint a - sint b < 2147483648 \<Longrightarrow>
   sint (a - b :: 32 word) = sint a - sint b"
  by (simp add: sint_word_diff signed_take_bit_int_eq_self)

lemma sint32_of_int:
  "- 2147483648 \<le> k \<Longrightarrow> k < 2147483648 \<Longrightarrow> sint (word_of_int k :: 32 word) = k"
  by (simp add: sint_sbintrunc' signed_take_bit_int_eq_self)

lemma sint64_add:
  "- 9223372036854775808 \<le> sint a + sint b \<Longrightarrow> sint a + sint b < 9223372036854775808 \<Longrightarrow>
   sint (a + b :: 64 word) = sint a + sint b"
  by (simp add: sint_word_add signed_take_bit_int_eq_self)

lemma sint64_diff:
  "- 9223372036854775808 \<le> sint a - sint b \<Longrightarrow> sint a - sint b < 9223372036854775808 \<Longrightarrow>
   sint (a - b :: 64 word) = sint a - sint b"
  by (simp add: sint_word_diff signed_take_bit_int_eq_self)

lemma sint64_mult:
  "- 9223372036854775808 \<le> sint a * sint b \<Longrightarrow> sint a * sint b < 9223372036854775808 \<Longrightarrow>
   sint (a * b :: 64 word) = sint a * sint b"
  by (simp add: sint_word_mult signed_take_bit_int_eq_self)

lemma sint64_of_int:
  "- 9223372036854775808 \<le> k \<Longrightarrow> k < 9223372036854775808 \<Longrightarrow>
   sint (word_of_int k :: 64 word) = k"
  by (simp add: sint_sbintrunc' signed_take_bit_int_eq_self)

lemma sint_scast_32_64: "sint (scast (p :: 32 word) :: 64 word) = sint p"
  by (simp add: sint_up_scast is_up)

lemma sdiv_nonneg: "0 \<le> a \<Longrightarrow> 0 < b \<Longrightarrow> a sdiv b = a div (b :: int)"
  by (simp add: signed_divide_int_def sgn_if)

lemma div_le_self_int: "0 \<le> a \<Longrightarrow> 0 < b \<Longrightarrow> a div b \<le> (a :: int)"
  using zdiv_mono2 [of a 1 b] by simp

lemma sint_cpp_div32:
  assumes "0 \<le> sint a" "0 < sint b"
  shows "sint (cpp_div a b :: 32 word) = sint a div sint b"
proof -
  have q: "sint a sdiv sint b = sint a div sint b"
    using assms by (rule sdiv_nonneg)
  have lo: "0 \<le> sint a div sint b"
    using assms by (simp add: pos_imp_zdiv_nonneg_iff)
  have hi: "sint a div sint b \<le> sint a"
    using assms by (rule div_le_self_int)
  show ?thesis
    unfolding cpp_div_def q
    using lo hi sint32_range [of a] by (intro sint32_of_int) linarith+
qed

lemma sint_cpp_div64:
  assumes "0 \<le> sint a" "0 < sint b"
  shows "sint (cpp_div a b :: 64 word) = sint a div sint b"
proof -
  have q: "sint a sdiv sint b = sint a div sint b"
    using assms by (rule sdiv_nonneg)
  have lo: "0 \<le> sint a div sint b"
    using assms by (simp add: pos_imp_zdiv_nonneg_iff)
  have hi: "sint a div sint b \<le> sint a"
    using assms by (rule div_le_self_int)
  show ?thesis
    unfolding cpp_div_def q
    using lo hi sint64_range [of a] by (intro sint64_of_int) linarith+
qed

lemma sint_clamp: "sint (clamp v 0 24) = max 0 (min 24 (sint v))"
  by (auto simp: clamp_def signed_cmp)

lemma clamp_range: "0 \<le> sint (clamp v 0 24) \<and> sint (clamp v 0 24) \<le> 24"
  by (simp add: sint_clamp)

lemma MonthIndex_nonneg: "0 \<le> sint (MonthIndex height month_blocks)"
proof -
  have "0 \<le> sint (cpp_div height month_blocks)"
    if "0 < sint month_blocks" "0 \<le> sint height"
    using that by (simp add: sint_cpp_div32 pos_imp_zdiv_nonneg_iff)
  then show ?thesis
    by (auto simp: MonthIndex_def signed_cmp not_le not_less)
qed

section \<open>The example inputs, evaluated\<close>

lemma example_extract:
  "ExtractMinerTagFromBlock example_externals example_block = Some example_tag"
  by (simp add: ExtractMinerTagFromBlock_def example_block_def example_externals_def
      example_payout_def example_marker_def tag_of_output_def GetScriptOp_def read_push_def
      OP_RETURN_def kMflexId_def example_tag_def)

lemma plain_extract: "ExtractMinerTagFromBlock example_externals plain_block = None"
  by (simp add: ExtractMinerTagFromBlock_def plain_block_def example_externals_def
      example_payout_def tag_of_output_def GetScriptOp_def read_push_def OP_RETURN_def)

lemma example_key: "HexStr example_externals example_tag = ''deadbeef''"
  by (simp add: example_externals_def HexStr_lower_def hex_digit_def example_tag_def)

lemma example_config:
  "GetPolStartHeight example_externals = 1" "GetPolMonthBlocks example_externals = 10"
  by (simp_all add: GetPolStartHeight_def GetPolMonthBlocks_def example_externals_def)

lemma example_months: "MonthIndex 5 10 = 0" "MonthIndex 7 10 = 0" "MonthIndex 25 10 = 2"
  by (simp_all add: MonthIndex_def cpp_div_def signed_cmp)

lemma example_first:
  "OnConnectBlock example_externals example_block 5 7 Map.empty =
     [''deadbeef'' \<mapsto>
        \<lparr>seen = True, first_seen_height = 5, last_seen_height = 5, blocks_seen = 1,
         last_seen_time = 7, points = 2, last_seen_month = 0\<rparr>]"
  by (simp add: OnConnectBlock_def example_extract example_key example_config example_months
      update_entry_def MinerTagStatus_init_def clamp_def signed_cmp)

lemma example_second:
  "connect_all example_externals [(example_block, 5, 7), (example_block, 25, 9)] Map.empty =
     [''deadbeef'' \<mapsto>
        \<lparr>seen = True, first_seen_height = 5, last_seen_height = 25, blocks_seen = 2,
         last_seen_time = 9, points = 3, last_seen_month = 2\<rparr>]"
  by (simp add: connect_all_def OnConnectBlock_def example_extract example_key example_config
      example_months update_entry_def MinerTagStatus_init_def clamp_def signed_cmp)

section \<open>The points stay between 0 and 24\<close>

lemma update_entry_ok:
  assumes "0 \<le> sint cur" "seen s \<longrightarrow> entry_ok s"
  shows "entry_ok (update_entry cur h t s)"
  using assms clamp_range
  by (auto simp: update_entry_def entry_ok_def Let_def)

lemma OnConnectBlock_ok:
  assumes "\<forall>k s. g k = Some s \<longrightarrow> entry_ok s" "OnConnectBlock E b h t g k = Some s"
  shows "entry_ok s"
  using assms
  by (auto simp: OnConnectBlock_def Let_def MinerTagStatus_init_def update_entry_ok
      MonthIndex_nonneg split: if_splits option.splits)

lemma connect_all_ok:
  "\<forall>k s. g k = Some s \<longrightarrow> entry_ok s \<Longrightarrow> connect_all E calls g k = Some s \<Longrightarrow> entry_ok s"
proof (induction calls arbitrary: g k s)
  case Nil
  then show ?case by (simp add: connect_all_def)
next
  case (Cons c calls)
  obtain b h t where c: "c = (b, h, t)" by (cases c)
  have step: "\<forall>k s. OnConnectBlock E b h t g k = Some s \<longrightarrow> entry_ok s"
    using Cons.prems(1) OnConnectBlock_ok by blast
  have "connect_all E calls (OnConnectBlock E b h t g) k = Some s"
    using Cons.prems(2) by (simp add: connect_all_def c)
  with step show ?case by (rule Cons.IH)
qed

lemma reachable_ok: "connect_all E calls Map.empty k = Some s \<Longrightarrow> entry_ok s"
  by (rule connect_all_ok [of Map.empty]) simp_all

text \<open>
  C2. After any sequence of \<^const>\<open>OnConnectBlock\<close> calls that starts from the empty
  ledger, the points stored for every key of the ledger lie between 0 and 24.
\<close>

theorem points_between_0_and_24:
  "connect_all E calls Map.empty key = Some st \<Longrightarrow>
   0 \<le> sint (points st) \<and> sint (points st) \<le> 24"
  using reachable_ok [of E calls key st] by (simp add: entry_ok_def)

theorem points_between_0_and_24_witness:
  "connect_all example_externals [(example_block, 5, 7), (example_block, 25, 9)] Map.empty
     ''deadbeef''
   = Some \<lparr>seen = True, first_seen_height = 5, last_seen_height = 25, blocks_seen = 2,
           last_seen_time = 9, points = 3, last_seen_month = 2\<rparr>
   \<and> 0 \<le> sint (3 :: int32_t) \<and> sint (3 :: int32_t) \<le> 24"
proof -
  have h: "connect_all example_externals [(example_block, 5, 7), (example_block, 25, 9)]
             Map.empty ''deadbeef''
           = Some \<lparr>seen = True, first_seen_height = 5, last_seen_height = 25, blocks_seen = 2,
                   last_seen_time = 9, points = 3, last_seen_month = 2\<rparr>"
    by (simp add: example_second)
  show ?thesis using h points_between_0_and_24 [OF h] by simp
qed

section \<open>The first update of a tag\<close>

text \<open>The period of a height is the height divided by the period length.\<close>

lemma MonthIndex_sint:
  "sint (MonthIndex height month_blocks) =
     (if 0 < sint month_blocks \<and> 0 \<le> sint height then sint height div sint month_blocks else 0)"
  by (auto simp: MonthIndex_def signed_cmp sint_cpp_div32)

text \<open>
  C6. For a tag whose key is not in the ledger, the update of a block at or above the
  start height that carries the tag creates the entry: seen, first seen at the height of
  the block, and exactly 2 points (with one block counted and the height and time of the
  block recorded). Its last period is the period of the height: the height divided by
  the period length (the one period 0 where the configured length is not positive or
  the height is negative).
\<close>

theorem first_update_gives_two_points:
  "g (HexStr E tag) = None \<Longrightarrow>
   ExtractMinerTagFromBlock E block = Some tag \<Longrightarrow>
   \<not> height <s GetPolStartHeight E \<Longrightarrow>
   (\<exists>period.
      OnConnectBlock E block height block_time g (HexStr E tag) =
        Some \<lparr>seen = True, first_seen_height = height, last_seen_height = height,
               blocks_seen = 1, last_seen_time = block_time, points = 2,
               last_seen_month = period\<rparr>
      \<and> sint period =
          (if 0 < sint (GetPolMonthBlocks E) \<and> 0 \<le> sint height
           then sint height div sint (GetPolMonthBlocks E) else 0))"
  by (rule exI [of _ "MonthIndex height (GetPolMonthBlocks E)"])
    (simp add: OnConnectBlock_def update_entry_def MinerTagStatus_init_def clamp_def signed_cmp
      MonthIndex_sint)

theorem first_update_gives_two_points_witness:
  "Map.empty (HexStr example_externals example_tag) = (None :: MinerTagStatus option)
   \<and> ExtractMinerTagFromBlock example_externals example_block = Some example_tag
   \<and> \<not> 25 <s GetPolStartHeight example_externals
   \<and> sint (GetPolMonthBlocks example_externals) = 10
   \<and> (\<exists>period.
        OnConnectBlock example_externals example_block 25 7 Map.empty ''deadbeef'' =
          Some \<lparr>seen = True, first_seen_height = 25, last_seen_height = 25,
                 blocks_seen = 1, last_seen_time = 7, points = 2, last_seen_month = period\<rparr>
        \<and> sint period = 2)"
proof -
  have h1: "(Map.empty :: ledger) (HexStr example_externals example_tag) = None" by simp
  have h3: "\<not> 25 <s GetPolStartHeight example_externals"
    by (simp add: example_config signed_cmp)
  show ?thesis
    using h3 first_update_gives_two_points [OF h1 example_extract h3, of 7]
    by (simp add: example_extract example_key example_config)
qed

section \<open>Blocks that leave the ledger alone\<close>

text \<open>
  C9. A block below the configured start height, and a block from which no tag is
  extracted, leave the whole ledger as it was.
\<close>

theorem inert_below_start_or_without_tag:
  "height <s GetPolStartHeight E \<or> ExtractMinerTagFromBlock E block = None \<Longrightarrow>
   OnConnectBlock E block height block_time g = g"
  by (auto simp: OnConnectBlock_def)

theorem inert_below_start_or_without_tag_witness:
  "(0 <s GetPolStartHeight example_externals
      \<or> ExtractMinerTagFromBlock example_externals example_block = None)
   \<and> OnConnectBlock example_externals example_block 0 7 Map.empty = Map.empty
   \<and> (5 <s GetPolStartHeight example_externals
      \<or> ExtractMinerTagFromBlock example_externals plain_block = None)
   \<and> OnConnectBlock example_externals plain_block 5 7 Map.empty = Map.empty"
proof -
  have h1: "0 <s GetPolStartHeight example_externals
            \<or> ExtractMinerTagFromBlock example_externals example_block = None"
    by (simp add: example_config signed_cmp)
  have h2: "5 <s GetPolStartHeight example_externals
            \<or> ExtractMinerTagFromBlock example_externals plain_block = None"
    by (simp add: plain_extract)
  show ?thesis
    using h1 h2 inert_below_start_or_without_tag [OF h1, of 7 Map.empty]
      inert_below_start_or_without_tag [OF h2, of 7 Map.empty]
    by simp
qed

section \<open>The status query reads only\<close>

lemma empty_memory_ok: "memory_ok empty_memory"
  by (simp add: memory_ok_def empty_memory_def)

lemma ledger_of_empty: "ledger_of empty_memory = Map.empty"
  by (simp add: ledger_of_def empty_memory_def)

lemma table_not_fresh:
  "memory_ok M \<Longrightarrow> g_tag_state M key = Some a \<Longrightarrow> a < next_free M"
  by (auto simp: memory_ok_def)

lemma memory_okD:
  assumes "memory_ok M"
  shows "\<And>key a. g_tag_state M key = Some a \<Longrightarrow> \<exists>v. objs M a = Some v"
    and "\<And>key key' a. g_tag_state M key = Some a \<Longrightarrow> g_tag_state M key' = Some a \<Longrightarrow> key = key'"
    and "\<And>a v. objs M a = Some v \<Longrightarrow> a < next_free M"
  using assms by (auto simp: memory_ok_def)

lemma memory_okI:
  assumes "\<And>key a. g_tag_state M key = Some a \<Longrightarrow> \<exists>v. objs M a = Some v"
    and "\<And>key key' a. g_tag_state M key = Some a \<Longrightarrow> g_tag_state M key' = Some a \<Longrightarrow> key = key'"
    and "\<And>a v. objs M a = Some v \<Longrightarrow> a < next_free M"
  shows "memory_ok M"
  using assms unfolding memory_ok_def by (intro conjI allI impI ballI) (blast, blast, force)

lemma table_subscript_props:
  assumes ok: "memory_ok M" and sub: "table_subscript key M = (a, M1)"
  shows "memory_ok M1"
    and "g_tag_state M1 key = Some a"
    and "objs M1 a = Some (case ledger_of M key of None \<Rightarrow> MinerTagStatus_init | Some v \<Rightarrow> v)"
    and "ledger_of M1 = (ledger_of M)(key \<mapsto> (case ledger_of M key of None \<Rightarrow> MinerTagStatus_init | Some v \<Rightarrow> v))"
    and "\<And>b. b < next_free M \<Longrightarrow> b \<notin> ran (g_tag_state M) \<Longrightarrow>
           objs M1 b = objs M b \<and> b \<notin> ran (g_tag_state M1) \<and> b \<noteq> a"
    and "next_free M \<le> next_free M1"
proof -
  note d = memory_okD [OF ok]
  have all: "memory_ok M1 \<and> g_tag_state M1 key = Some a
    \<and> objs M1 a = Some (case ledger_of M key of None \<Rightarrow> MinerTagStatus_init | Some v \<Rightarrow> v)
    \<and> ledger_of M1 = (ledger_of M)(key \<mapsto> (case ledger_of M key of None \<Rightarrow> MinerTagStatus_init | Some v \<Rightarrow> v))
    \<and> (\<forall>b. b < next_free M \<longrightarrow> b \<notin> ran (g_tag_state M) \<longrightarrow>
           objs M1 b = objs M b \<and> b \<notin> ran (g_tag_state M1) \<and> b \<noteq> a)
    \<and> next_free M \<le> next_free M1"
  proof (cases "g_tag_state M key")
    case None
    then have M1: "M1 = M\<lparr>objs := (objs M)(next_free M \<mapsto> MinerTagStatus_init),
                       next_free := Suc (next_free M),
                       g_tag_state := (g_tag_state M)(key \<mapsto> next_free M)\<rparr>"
      and a: "a = next_free M"
      using sub by (auto simp: table_subscript_def new_object_def)
    have fresh: "b \<noteq> next_free M" if "g_tag_state M k = Some b" for k b
      using d(1) [OF that] d(3) [of b] by auto
    have nofresh: "objs M (next_free M) = None"
      using d(3) [of "next_free M"] by (cases "objs M (next_free M)") auto
    have ok1: "memory_ok M1"
    proof (rule memory_okI)
      fix k b assume "g_tag_state M1 k = Some b"
      then show "\<exists>v. objs M1 b = Some v"
        using d(1) [of k b] by (auto simp: M1 split: if_splits)
    next
      fix k k' b assume "g_tag_state M1 k = Some b" "g_tag_state M1 k' = Some b"
      then show "k = k'"
        using d(2) [of k b k'] fresh [of k b] fresh [of k' b]
        by (auto simp: M1 split: if_splits)
    next
      fix b v assume "objs M1 b = Some v"
      then show "b < next_free M1"
        using d(3) [of b v] by (auto simp: M1 split: if_splits)
    qed
    have l0: "ledger_of M key = None" using None by (simp add: ledger_of_def)
    have led: "ledger_of M1 = (ledger_of M)(key \<mapsto> MinerTagStatus_init)"
    proof (rule ext)
      fix k
      show "ledger_of M1 k = ((ledger_of M)(key \<mapsto> MinerTagStatus_init)) k"
      proof (cases "k = key")
        case True
        then show ?thesis by (simp add: ledger_of_def M1)
      next
        case False
        then show ?thesis
          using fresh [of k] by (auto simp: ledger_of_def M1 split: option.splits)
      qed
    qed
    have fr: "objs M1 b = objs M b \<and> b \<notin> ran (g_tag_state M1) \<and> b \<noteq> a"
      if "b < next_free M" "b \<notin> ran (g_tag_state M)" for b
      using that by (auto simp: M1 a ran_def split: if_splits)
    show ?thesis
      using ok1 led fr l0 by (simp add: M1 a)
  next
    case (Some b)
    then have e: "M1 = M" "a = b" using sub by (simp_all add: table_subscript_def)
    obtain v where v: "objs M b = Some v" using d(1) [OF Some] by blast
    have l: "ledger_of M key = Some v" using Some v by (simp add: ledger_of_def)
    have "(ledger_of M)(key \<mapsto> v) = ledger_of M" using l by (auto simp: fun_eq_iff)
    moreover have "b \<in> ran (g_tag_state M)" using Some by (auto simp: ran_def)
    ultimately show ?thesis
      using ok Some v l by (auto simp: e)
  qed
  show "memory_ok M1" "g_tag_state M1 key = Some a"
    "objs M1 a = Some (case ledger_of M key of None \<Rightarrow> MinerTagStatus_init | Some v \<Rightarrow> v)"
    "ledger_of M1 = (ledger_of M)(key \<mapsto> (case ledger_of M key of None \<Rightarrow> MinerTagStatus_init | Some v \<Rightarrow> v))"
    "next_free M \<le> next_free M1"
    using all by blast+
  show "objs M1 b = objs M b \<and> b \<notin> ran (g_tag_state M1) \<and> b \<noteq> a"
    if "b < next_free M" "b \<notin> ran (g_tag_state M)" for b
    using all that by blast
qed

lemma write_entry_props:
  assumes ok1: "memory_ok M1" and at: "g_tag_state M1 key = Some a"
  shows "memory_ok (M1\<lparr>objs := (objs M1)(a \<mapsto> u)\<rparr>)"
    and "ledger_of (M1\<lparr>objs := (objs M1)(a \<mapsto> u)\<rparr>) = (ledger_of M1)(key \<mapsto> u)"
proof -
  note d = memory_okD [OF ok1]
  show "memory_ok (M1\<lparr>objs := (objs M1)(a \<mapsto> u)\<rparr>)"
  proof (rule memory_okI)
    fix k b assume "g_tag_state (M1\<lparr>objs := (objs M1)(a \<mapsto> u)\<rparr>) k = Some b"
    then have "g_tag_state M1 k = Some b" by simp
    from d(1) [OF this] show "\<exists>v. objs (M1\<lparr>objs := (objs M1)(a \<mapsto> u)\<rparr>) b = Some v"
      by simp
  next
    fix k k' b
    assume "g_tag_state (M1\<lparr>objs := (objs M1)(a \<mapsto> u)\<rparr>) k = Some b"
      "g_tag_state (M1\<lparr>objs := (objs M1)(a \<mapsto> u)\<rparr>) k' = Some b"
    then have "g_tag_state M1 k = Some b" "g_tag_state M1 k' = Some b" by simp_all
    then show "k = k'" by (rule d(2))
  next
    fix b v assume b: "objs (M1\<lparr>objs := (objs M1)(a \<mapsto> u)\<rparr>) b = Some v"
    show "b < next_free (M1\<lparr>objs := (objs M1)(a \<mapsto> u)\<rparr>)"
    proof (cases "b = a")
      case True
      obtain w where "objs M1 a = Some w" using d(1) [OF at] by blast
      from d(3) [OF this] True show ?thesis by simp
    next
      case False
      with b have "objs M1 b = Some v" by simp
      from d(3) [OF this] show ?thesis by simp
    qed
  qed
  show "ledger_of (M1\<lparr>objs := (objs M1)(a \<mapsto> u)\<rparr>) = (ledger_of M1)(key \<mapsto> u)"
  proof (rule ext)
    fix k
    show "ledger_of (M1\<lparr>objs := (objs M1)(a \<mapsto> u)\<rparr>) k = ((ledger_of M1)(key \<mapsto> u)) k"
    proof (cases "k = key")
      case True
      then show ?thesis using at by (simp add: ledger_of_def)
    next
      case False
      show ?thesis
      proof (cases "g_tag_state M1 k")
        case None
        then show ?thesis using False by (simp add: ledger_of_def)
      next
        case (Some b)
        have "b \<noteq> a" using d(2) [OF Some, of key] at False by auto
        then show ?thesis using Some False by (simp add: ledger_of_def)
      qed
    qed
  qed
qed

lemma OnConnectBlock_mem_props:
  assumes ok: "memory_ok M"
  shows "memory_ok (OnConnectBlock_mem E b h t M)
    \<and> ledger_of (OnConnectBlock_mem E b h t M) = OnConnectBlock E b h t (ledger_of M)
    \<and> (\<forall>x. outside_table x M \<longrightarrow>
           outside_table x (OnConnectBlock_mem E b h t M)
           \<and> objs (OnConnectBlock_mem E b h t M) x = objs M x)"
proof (cases "h <s GetPolStartHeight E")
  case True
  then show ?thesis using ok by (simp add: OnConnectBlock_mem_def OnConnectBlock_def)
next
  case False
  show ?thesis
  proof (cases "ExtractMinerTagFromBlock E b")
    case None
    then show ?thesis using ok False by (simp add: OnConnectBlock_mem_def OnConnectBlock_def)
  next
    case (Some tag)
    obtain a M1 where sub: "table_subscript (HexStr E tag) M = (a, M1)"
      by (cases "table_subscript (HexStr E tag) M")
    let ?key = "HexStr E tag"
    let ?v = "case ledger_of M ?key of None \<Rightarrow> MinerTagStatus_init | Some v \<Rightarrow> v"
    let ?u = "update_entry (MonthIndex h (GetPolMonthBlocks E)) h t ?v"
    let ?M2 = "M1\<lparr>objs := (objs M1)(a \<mapsto> ?u)\<rparr>"
    note p = table_subscript_props [OF ok sub]
    have res: "OnConnectBlock_mem E b h t M = ?M2"
      using False Some sub p(3) by (simp add: OnConnectBlock_mem_def)
    note w = write_entry_props [OF p(1) p(2), of ?u]
    have led: "ledger_of ?M2 = (ledger_of M)(?key \<mapsto> ?u)"
      unfolding w(2) p(4) by simp
    have abs: "OnConnectBlock E b h t (ledger_of M) = (ledger_of M)(?key \<mapsto> ?u)"
      using False Some by (simp add: OnConnectBlock_def Let_def)
    have fr: "outside_table x ?M2 \<and> objs ?M2 x = objs M x" if "outside_table x M" for x
    proof -
      from that have x: "x < next_free M" "x \<notin> ran (g_tag_state M)"
        by (simp_all add: outside_table_def)
      from p(5) [OF x] p(6) x(1) show ?thesis
        by (simp add: outside_table_def)
    qed
    show ?thesis
      unfolding res using w(1) led abs fr by simp
  qed
qed

lemma GetMinerTagStatus_mem_props:
  assumes ok: "memory_ok M" and q: "GetMinerTagStatus_mem E tag M = (r, M')"
  shows "memory_ok M'
    \<and> g_tag_state M' = g_tag_state M
    \<and> ledger_of M' = ledger_of M
    \<and> (\<forall>x. outside_table x M \<longrightarrow> outside_table x M' \<and> objs M' x = objs M x)
    \<and> (ledger_of M (HexStr E tag) = None \<longrightarrow> r = None \<and> M' = M)
    \<and> (\<forall>v. ledger_of M (HexStr E tag) = Some v \<longrightarrow>
          r = Some (next_free M) \<and> objs M' (next_free M) = Some v
          \<and> outside_table (next_free M) M')"
proof (cases "g_tag_state M (HexStr E tag)")
  case None
  then have "r = None" "M' = M"
    using q by (auto simp: GetMinerTagStatus_mem_def table_find_def)
  moreover have "ledger_of M (HexStr E tag) = None"
    using None by (simp add: ledger_of_def)
  ultimately show ?thesis using ok by simp
next
  case (Some it)
  note d = memory_okD [OF ok]
  obtain v where v: "objs M it = Some v" using d(1) [OF Some] by blast
  have l: "ledger_of M (HexStr E tag) = Some v"
    using Some v by (simp add: ledger_of_def)
  let ?n = "next_free M"
  have r: "r = Some ?n" and M': "M' = M\<lparr>objs := (objs M)(?n \<mapsto> v), next_free := Suc ?n\<rparr>"
    using q Some v by (auto simp: GetMinerTagStatus_mem_def table_find_def new_object_def)
  have below: "b < ?n" if "g_tag_state M k = Some b" for k b
    using d(1) [OF that] d(3) [of b] by auto
  have ok': "memory_ok M'"
  proof (rule memory_okI)
    fix k b assume "g_tag_state M' k = Some b"
    then have "g_tag_state M k = Some b" by (simp add: M')
    from d(1) [OF this] below [OF this] show "\<exists>w. objs M' b = Some w"
      by (simp add: M')
  next
    fix k k' b assume "g_tag_state M' k = Some b" "g_tag_state M' k' = Some b"
    then have "g_tag_state M k = Some b" "g_tag_state M k' = Some b" by (simp_all add: M')
    then show "k = k'" by (rule d(2))
  next
    fix b w assume "objs M' b = Some w"
    then show "b < next_free M'"
      using d(3) [of b w] by (auto simp: M' split: if_splits)
  qed
  have led: "ledger_of M' = ledger_of M"
  proof (rule ext)
    fix k
    show "ledger_of M' k = ledger_of M k"
    proof (cases "g_tag_state M k")
      case None
      then show ?thesis by (simp add: ledger_of_def M')
    next
      case (Some b)
      with below [OF Some] show ?thesis by (simp add: ledger_of_def M')
    qed
  qed
  have notin: "?n \<notin> ran (g_tag_state M)"
    using below by (auto simp: ran_def)
  have fr: "outside_table x M' \<and> objs M' x = objs M x" if "outside_table x M" for x
    using that by (auto simp: outside_table_def M')
  have out: "outside_table ?n M'"
    using notin by (simp add: outside_table_def M')
  show ?thesis
    using ok' led fr out l r by (simp add: M')
qed

lemma run_call_props:
  assumes ok: "memory_ok M"
  shows "memory_ok (run_call E c M)
    \<and> ledger_of (run_call E c M) = connect_all E (connections [c]) (ledger_of M)
    \<and> (\<forall>x. outside_table x M \<longrightarrow>
           outside_table x (run_call E c M) \<and> objs (run_call E c M) x = objs M x)"
proof (cases c)
  case (Connect b h t)
  then show ?thesis
    using OnConnectBlock_mem_props [OF ok, of E b h t] by (simp add: connect_all_def)
next
  case (Query tag)
  obtain r M' where q: "GetMinerTagStatus_mem E tag M = (r, M')"
    by (cases "GetMinerTagStatus_mem E tag M")
  from GetMinerTagStatus_mem_props [OF ok q] show ?thesis
    by (simp add: Query q connect_all_def)
qed

lemma connections_append: "connections (xs @ ys) = connections xs @ connections ys"
  by (induction xs rule: connections.induct) simp_all

lemma connect_all_append:
  "connect_all E (xs @ ys) g = connect_all E ys (connect_all E xs g)"
  by (simp add: connect_all_def)

lemma run_calls_props:
  assumes ok: "memory_ok M"
  shows "memory_ok (run_calls E calls M)
    \<and> ledger_of (run_calls E calls M) = connect_all E (connections calls) (ledger_of M)
    \<and> (\<forall>x. outside_table x M \<longrightarrow>
           outside_table x (run_calls E calls M) \<and> objs (run_calls E calls M) x = objs M x)"
proof (induction calls rule: rev_induct)
  case Nil
  show ?case using ok by (simp add: run_calls_def connect_all_def)
next
  case (snoc c calls)
  let ?M = "run_calls E calls M"
  have step: "run_calls E (calls @ [c]) M = run_call E c ?M"
    by (simp add: run_calls_def)
  from snoc have ok1: "memory_ok ?M" by blast
  note p = run_call_props [OF ok1, of E c]
  have "ledger_of (run_call E c ?M) = connect_all E (connections (calls @ [c])) (ledger_of M)"
    using p snoc by (simp add: connections_append connect_all_append)
  moreover have "outside_table x (run_call E c ?M) \<and> objs (run_call E c ?M) x = objs M x"
    if "outside_table x M" for x
    using that p snoc by simp
  ultimately show ?case
    unfolding step using p by blast
qed

text \<open>
  C10. \<^verbatim>\<open>GetMinerTagStatus\<close> never changes the ledger. In every memory that a run of
  connections and queries has built, a query leaves the table and every entry as they
  were; for a tag that was never seen it answers nothing and changes nothing at all, so
  no entry is made; for a known tag the answer is a new object that holds the value of
  the entry and that the table does not point to, and whatever is connected or queried
  later, the answered object keeps that value. The ledger of a run is the ledger of its
  connections alone, and on this ledger \<^const>\<open>GetMinerTagStatus\<close> gives the value of the
  answered object.
\<close>

theorem status_query_hands_out_a_copy:
  "M = run_calls E before empty_memory \<Longrightarrow>
   GetMinerTagStatus_mem E tag M = (r, M') \<Longrightarrow>
   ledger_of M' = ledger_of M
   \<and> g_tag_state M' = g_tag_state M
   \<and> (ledger_of M (HexStr E tag) = None \<longrightarrow> r = None \<and> M' = M)
   \<and> (\<forall>v. ledger_of M (HexStr E tag) = Some v \<longrightarrow>
        (\<exists>a. r = Some a \<and> objs M' a = Some v \<and> a \<notin> ran (g_tag_state M')
           \<and> (\<forall>later. objs (run_calls E later M') a = Some v)))
   \<and> GetMinerTagStatus E tag (ledger_of M)
       = (case r of None \<Rightarrow> None | Some a \<Rightarrow> objs M' a, ledger_of M')
   \<and> ledger_of (run_calls E calls empty_memory) = connect_all E (connections calls) Map.empty"
proof -
  assume M: "M = run_calls E before empty_memory"
    and q: "GetMinerTagStatus_mem E tag M = (r, M')"
  have ok: "memory_ok M"
    unfolding M using run_calls_props [OF empty_memory_ok] by blast
  note p = GetMinerTagStatus_mem_props [OF ok q]
  have ok': "memory_ok M'" using p by blast
  have copy: "\<exists>a. r = Some a \<and> objs M' a = Some v \<and> a \<notin> ran (g_tag_state M')
           \<and> (\<forall>later. objs (run_calls E later M') a = Some v)"
    if v: "ledger_of M (HexStr E tag) = Some v" for v
  proof -
    from p v have r: "r = Some (next_free M)" and o: "objs M' (next_free M) = Some v"
      and out: "outside_table (next_free M) M'" by blast+
    have "objs (run_calls E later M') (next_free M) = Some v" for later
      using run_calls_props [OF ok', of E later] out o by simp
    with r o out show ?thesis by (auto simp: outside_table_def)
  qed
  have val: "GetMinerTagStatus E tag (ledger_of M)
       = (case r of None \<Rightarrow> None | Some a \<Rightarrow> objs M' a, ledger_of M')"
  proof (cases "ledger_of M (HexStr E tag)")
    case None
    with p show ?thesis by (simp add: GetMinerTagStatus_def)
  next
    case (Some v)
    with p have "r = Some (next_free M)" "objs M' (next_free M) = Some v" by blast+
    with p Some show ?thesis by (simp add: GetMinerTagStatus_def)
  qed
  have run: "ledger_of (run_calls E calls empty_memory) = connect_all E (connections calls) Map.empty"
    using run_calls_props [OF empty_memory_ok, of E calls] by (simp add: ledger_of_empty)
  show ?thesis
    using p copy val run by blast
qed

lemma example_memory_run:
  "run_calls example_externals [Connect example_block 5 7] empty_memory = example_memory"
  by (simp add: run_calls_def OnConnectBlock_mem_def example_config example_extract example_key
      example_months table_subscript_def new_object_def empty_memory_def example_memory_def
      example_entry_def MinerTagStatus_init_def update_entry_def clamp_def signed_cmp)

lemma example_query:
  "GetMinerTagStatus_mem example_externals example_tag example_memory = (Some 1, example_queried)"
  by (simp add: GetMinerTagStatus_mem_def table_find_def example_key example_memory_def
      example_queried_def new_object_def)

lemma example_later:
  "ledger_of (run_calls example_externals [Connect example_block 25 9] example_queried) ''deadbeef''
   = Some \<lparr>seen = True, first_seen_height = 5, last_seen_height = 25, blocks_seen = 2,
           last_seen_time = 9, points = 3, last_seen_month = 2\<rparr>"
  by (simp add: run_calls_def OnConnectBlock_mem_def example_config example_extract example_key
      example_months table_subscript_def example_queried_def ledger_of_def
      example_entry_def update_entry_def clamp_def signed_cmp)

lemma example_unknown:
  "GetMinerTagStatus_mem example_externals [1, 2, 3, 4] example_memory = (None, example_memory)"
  by (simp add: GetMinerTagStatus_mem_def table_find_def example_memory_def
      example_externals_def HexStr_lower_def hex_digit_def)

theorem status_query_hands_out_a_copy_witness:
  "example_memory = run_calls example_externals [Connect example_block 5 7] empty_memory
   \<and> GetMinerTagStatus_mem example_externals example_tag example_memory
       = (Some 1, example_queried)
   \<and> ledger_of example_memory (HexStr example_externals example_tag) = Some example_entry
   \<and> ledger_of example_queried = ledger_of example_memory
   \<and> objs example_queried 1 = Some example_entry
   \<and> objs (run_calls example_externals [Connect example_block 25 9] example_queried) 1
       = Some example_entry
   \<and> ledger_of (run_calls example_externals [Connect example_block 25 9] example_queried)
        ''deadbeef''
       = Some \<lparr>seen = True, first_seen_height = 5, last_seen_height = 25, blocks_seen = 2,
               last_seen_time = 9, points = 3, last_seen_month = 2\<rparr>
   \<and> ledger_of example_memory (HexStr example_externals [1, 2, 3, 4]) = None
   \<and> GetMinerTagStatus_mem example_externals [1, 2, 3, 4] example_memory
       = (None, example_memory)"
proof -
  have h1: "example_memory = run_calls example_externals [Connect example_block 5 7] empty_memory"
    by (simp add: example_memory_run)
  have known: "ledger_of example_memory (HexStr example_externals example_tag) = Some example_entry"
    by (simp add: ledger_of_def example_memory_def example_key)
  have unknown: "ledger_of example_memory (HexStr example_externals [1, 2, 3, 4]) = None"
    by (simp add: ledger_of_def example_memory_def example_externals_def HexStr_lower_def
        hex_digit_def)
  note a = status_query_hands_out_a_copy [OF h1 example_query]
  note b = status_query_hands_out_a_copy [OF h1 example_unknown]
  have "objs example_queried 1 = Some example_entry
        \<and> objs (run_calls example_externals [Connect example_block 25 9] example_queried) 1
            = Some example_entry"
    using a known by auto
  moreover have "ledger_of example_queried = ledger_of example_memory"
    using a by blast
  ultimately show ?thesis
    using h1 known unknown b example_query example_unknown example_later by simp
qed

section \<open>Updates of a tag that was seen before\<close>

lemma update_entry_later:
  assumes ok: "entry_ok s" and lt: "last_seen_month s <s cur"
  shows "sint (points (update_entry cur h t s)) =
           max 0 (min 24 (sint (points s) - (sint cur - sint (last_seen_month s) - 1) + 2))
         \<and> last_seen_month (update_entry cur h t s) = cur"
proof -
  let ?l = "last_seen_month s" and ?p = "points s"
  have l0: "0 \<le> sint ?l" and p0: "0 \<le> sint ?p" and p24: "sint ?p \<le> 24" and sn: "seen s"
    using ok by (simp_all add: entry_ok_def)
  have lc: "sint ?l < sint cur" using lt by (simp add: signed_cmp)
  have d1: "sint (cur - ?l) = sint cur - sint ?l"
    using l0 lc sint32_range [of cur] by (intro sint32_diff) linarith+
  have one: "sint (1 :: 32 word) = 1" by simp
  have m: "sint (cur - ?l - 1) = sint cur - sint ?l - 1"
    using d1 l0 lc sint32_range [of cur] sint32_diff [of "cur - ?l" 1] by (simp add: one)
  have sub: "sint (?p - (cur - ?l - 1)) = sint ?p - (sint cur - sint ?l - 1)"
    using m p0 p24 l0 lc sint32_range [of cur] by (intro sint32_diff [THEN trans]) linarith+
  have two: "sint (2 :: 32 word) = 2" by simp
  have add1: "sint (?p - (cur - ?l - 1) + 2) = sint ?p - (sint cur - sint ?l - 1) + 2"
    using sub p0 p24 l0 lc sint32_range [of cur] sint32_add [of "?p - (cur - ?l - 1)" 2]
    by (simp add: two)
  have add2: "sint (?p + 2) = sint ?p + 2"
    using p0 p24 sint32_add [of ?p 2] by (simp add: two)
  show ?thesis
  proof (cases "0 <s cur - ?l - 1")
    case True
    then show ?thesis
      using sn lt add1 by (simp add: update_entry_def Let_def sint_clamp)
  next
    case False
    then have "sint cur - sint ?l - 1 = 0"
      using m lc by (simp add: signed_cmp)
    then show ?thesis
      using False sn lt add2 by (simp add: update_entry_def Let_def sint_clamp)
  qed
qed

lemma update_entry_same:
  "seen s \<Longrightarrow> cur = last_seen_month s \<Longrightarrow>
   points (update_entry cur h t s) = points s
   \<and> last_seen_month (update_entry cur h t s) = last_seen_month s"
  by (simp add: update_entry_def Let_def signed_cmp)

lemma OnConnectBlock_lookup:
  "ExtractMinerTagFromBlock E block = Some tag \<Longrightarrow> \<not> height <s GetPolStartHeight E \<Longrightarrow>
   g (HexStr E tag) = Some s \<Longrightarrow>
   OnConnectBlock E block height block_time g (HexStr E tag) =
     Some (update_entry (MonthIndex height (GetPolMonthBlocks E)) height block_time s)"
  by (simp add: OnConnectBlock_def)

text \<open>
  C3. For a tag that the ledger already holds, the update of a block whose period is
  later than the last period of the tag sets the points to
  \<open>clamp (points - (period - last_seen_period - 1) + 2)\<close> between 0 and 24 and the last
  period to the new one; an update in the same period leaves the points as they are.
  With a period of 10 blocks, updates at heights 5 and 25 give 3 points.
\<close>

theorem later_update_accrues:
  "connect_all E calls Map.empty (HexStr E tag) = Some s \<Longrightarrow>
   ExtractMinerTagFromBlock E block = Some tag \<Longrightarrow>
   \<not> height <s GetPolStartHeight E \<Longrightarrow>
   (\<exists>s'. OnConnectBlock E block height block_time (connect_all E calls Map.empty) (HexStr E tag)
           = Some s'
      \<and> (last_seen_month s <s MonthIndex height (GetPolMonthBlocks E) \<longrightarrow>
           sint (points s') =
             max 0 (min 24 (sint (points s)
                - (sint (MonthIndex height (GetPolMonthBlocks E)) - sint (last_seen_month s) - 1)
                + 2))
           \<and> last_seen_month s' = MonthIndex height (GetPolMonthBlocks E))
      \<and> (MonthIndex height (GetPolMonthBlocks E) = last_seen_month s \<longrightarrow>
           points s' = points s \<and> last_seen_month s' = last_seen_month s))
   \<and> (GetPolMonthBlocks E = 10 \<and> \<not> 5 <s GetPolStartHeight E \<longrightarrow>
        (\<exists>s2. connect_all E [(block, 5, t1), (block, 25, t2)] Map.empty (HexStr E tag) = Some s2
           \<and> points s2 = 3))"
proof (intro conjI)
  assume r: "connect_all E calls Map.empty (HexStr E tag) = Some s"
    and x: "ExtractMinerTagFromBlock E block = Some tag"
    and h: "\<not> height <s GetPolStartHeight E"
  have ok: "entry_ok s" using r by (rule reachable_ok)
  show "\<exists>s'. OnConnectBlock E block height block_time (connect_all E calls Map.empty) (HexStr E tag)
           = Some s'
      \<and> (last_seen_month s <s MonthIndex height (GetPolMonthBlocks E) \<longrightarrow>
           sint (points s') =
             max 0 (min 24 (sint (points s)
                - (sint (MonthIndex height (GetPolMonthBlocks E)) - sint (last_seen_month s) - 1)
                + 2))
           \<and> last_seen_month s' = MonthIndex height (GetPolMonthBlocks E))
      \<and> (MonthIndex height (GetPolMonthBlocks E) = last_seen_month s \<longrightarrow>
           points s' = points s \<and> last_seen_month s' = last_seen_month s)"
    using OnConnectBlock_lookup [where g = "connect_all E calls Map.empty", OF x h r] update_entry_later [OF ok] update_entry_same ok
    by (auto simp: entry_ok_def)
  show "GetPolMonthBlocks E = 10 \<and> \<not> 5 <s GetPolStartHeight E \<longrightarrow>
        (\<exists>s2. connect_all E [(block, 5, t1), (block, 25, t2)] Map.empty (HexStr E tag) = Some s2
           \<and> points s2 = 3)"
  proof
    assume a: "GetPolMonthBlocks E = 10 \<and> \<not> 5 <s GetPolStartHeight E"
    then have "\<not> 25 <s GetPolStartHeight E"
      by (simp add: signed_cmp)
    with a x show "\<exists>s2. connect_all E [(block, 5, t1), (block, 25, t2)] Map.empty (HexStr E tag) = Some s2
           \<and> points s2 = 3"
      by (simp add: connect_all_def OnConnectBlock_def example_months update_entry_def
          MinerTagStatus_init_def clamp_def signed_cmp)
  qed
qed

theorem later_update_accrues_witness:
  "connect_all example_externals [(example_block, 5, 7)] Map.empty
       (HexStr example_externals example_tag)
     = Some \<lparr>seen = True, first_seen_height = 5, last_seen_height = 5, blocks_seen = 1,
             last_seen_time = 7, points = 2, last_seen_month = 0\<rparr>
   \<and> ExtractMinerTagFromBlock example_externals example_block = Some example_tag
   \<and> \<not> 25 <s GetPolStartHeight example_externals
   \<and> (0 :: int32_t) <s MonthIndex 25 (GetPolMonthBlocks example_externals)
   \<and> GetPolMonthBlocks example_externals = 10
   \<and> \<not> 5 <s GetPolStartHeight example_externals
   \<and> (\<exists>s'. OnConnectBlock example_externals example_block 25 9
               (connect_all example_externals [(example_block, 5, 7)] Map.empty) ''deadbeef''
             = Some s'
          \<and> sint (points s') = 3 \<and> last_seen_month s' = 2)
   \<and> (\<exists>s2. connect_all example_externals [(example_block, 5, 7), (example_block, 25, 9)]
               Map.empty ''deadbeef'' = Some s2
          \<and> points s2 = 3)"
proof -
  have h1: "connect_all example_externals [(example_block, 5, 7)] Map.empty
              (HexStr example_externals example_tag)
            = Some \<lparr>seen = True, first_seen_height = 5, last_seen_height = 5, blocks_seen = 1,
                    last_seen_time = 7, points = 2, last_seen_month = 0\<rparr>"
    using example_first by (simp add: connect_all_def example_key)
  have h3: "\<not> 25 <s GetPolStartHeight example_externals"
    by (simp add: example_config signed_cmp)
  have h4: "(0 :: int32_t) <s MonthIndex 25 (GetPolMonthBlocks example_externals)"
    by (simp add: example_config example_months signed_cmp)
  have h5: "\<not> 5 <s GetPolStartHeight example_externals"
    by (simp add: example_config signed_cmp)
  show ?thesis
    using h1 h3 h4 h5
      later_update_accrues
        [where calls = "[(example_block, 5, 7)]", OF h1 example_extract h3, of 9 7 9]
    by (simp add: example_extract example_key example_config example_months signed_cmp)
qed


section \<open>The allowed subsidy\<close>

lemma clamp_id: "0 \<le> sint v \<Longrightarrow> sint v \<le> 24 \<Longrightarrow> clamp v 0 24 = v"
  by (simp add: clamp_def signed_cmp)

lemma allowed_sint:
  fixes E tag height g
  defines "S \<equiv> sint (GetBlockSubsidy E height)"
  defines "q \<equiv> (case g (HexStr E tag) of None \<Rightarrow> 0 | Some st \<Rightarrow> max 0 (min 24 (sint (points st))))"
  assumes S0: "0 \<le> S" and fit: "(S - S div 2) * 24 \<le> 9223372036854775807"
  shows "sint (GetAllowedSubsidy E tag height g) = S div 2 + ((S - S div 2) * q) div 24"
proof -
  let ?S = "GetBlockSubsidy E height"
  let ?pts = "(case g (HexStr E tag) of Some st \<Rightarrow> clamp (points st) 0 24 | None \<Rightarrow> 0) :: 32 word"
  have two: "sint (2 :: 64 word) = 2" and n24: "sint (24 :: 64 word) = 24" by simp_all
  have q: "sint ?pts = q"
    by (simp add: q_def sint_clamp split: option.split)
  have q0: "0 \<le> q" and q24: "q \<le> 24"
    by (simp_all add: q_def split: option.split)
  have base: "sint (cpp_div ?S 2) = S div 2"
    using S0 by (simp add: sint_cpp_div64 two S_def)
  have b0: "0 \<le> S div 2" and bS: "S div 2 \<le> S"
    using S0 by (simp_all add: pos_imp_zdiv_nonneg_iff div_le_self_int)
  have Smax: "S < 9223372036854775808"
    using sint64_range [of ?S] by (simp add: S_def)
  have loyal: "sint (?S - cpp_div ?S 2) = S - S div 2"
    using base b0 bS Smax sint64_diff [of ?S "cpp_div ?S 2"] by (simp add: S_def)
  have l0: "0 \<le> S - S div 2" using bS by simp
  have prod_hi: "(S - S div 2) * q \<le> (S - S div 2) * 24"
    using l0 q24 by (rule mult_left_mono [rotated])
  have prod_lo: "0 \<le> (S - S div 2) * q"
    using l0 q0 by simp
  have prod: "sint ((?S - cpp_div ?S 2) * scast ?pts) = (S - S div 2) * q"
    using prod_lo prod_hi fit sint64_mult [of "?S - cpp_div ?S 2" "scast ?pts"]
    by (simp add: loyal sint_scast_32_64 q)
  have bonus: "sint (cpp_div ((?S - cpp_div ?S 2) * scast ?pts) 24) = ((S - S div 2) * q) div 24"
    using prod_lo by (simp add: sint_cpp_div64 n24 prod)
  have bonus_lo: "0 \<le> ((S - S div 2) * q) div 24"
    using prod_lo by (simp add: pos_imp_zdiv_nonneg_iff)
  have "((S - S div 2) * q) div 24 \<le> ((S - S div 2) * 24) div 24"
    using prod_hi by (intro zdiv_mono1) simp_all
  then have bonus_hi: "((S - S div 2) * q) div 24 \<le> S - S div 2" by simp
  have "sint (cpp_div ?S 2 + cpp_div ((?S - cpp_div ?S 2) * scast ?pts) 24)
        = S div 2 + ((S - S div 2) * q) div 24"
    using b0 bonus_lo bonus_hi Smax
      sint64_add [of "cpp_div ?S 2" "cpp_div ((?S - cpp_div ?S 2) * scast ?pts) 24"]
    by (simp add: base bonus)
  then show ?thesis
    by (simp add: GetAllowedSubsidy_def GetMinerTagStatus_def Let_def)
qed

lemma base_sint:
  "0 \<le> sint (GetBlockSubsidy E height) \<Longrightarrow>
   sint (GetBaseSubsidy E height) = sint (GetBlockSubsidy E height) div 2"
  by (simp add: GetBaseSubsidy_def sint_cpp_div64)

lemma connect_all_Nil: "connect_all E [] g = g"
  by (simp add: connect_all_def)

lemma example_schedule: "GetBlockSubsidy example_externals height = 2500000000"
  by (simp add: example_externals_def)

lemma example_year:
  "connect_all example_externals
     [(example_block, 5, 7), (example_block, 15, 7), (example_block, 25, 7),
      (example_block, 35, 7), (example_block, 45, 7), (example_block, 55, 7),
      (example_block, 65, 7), (example_block, 75, 7), (example_block, 85, 7),
      (example_block, 95, 7), (example_block, 105, 7), (example_block, 115, 7)] Map.empty =
     [''deadbeef'' \<mapsto>
        \<lparr>seen = True, first_seen_height = 5, last_seen_height = 115, blocks_seen = 12,
         last_seen_time = 7, points = 24, last_seen_month = 11\<rparr>]"
  by (simp add: connect_all_def OnConnectBlock_def example_extract example_key example_config
      MonthIndex_def cpp_div_def update_entry_def MinerTagStatus_init_def clamp_def signed_cmp)

text \<open>
  C1. At every height whose schedule value \<open>S\<close> is not negative and whose loyalty half
  times 24 fits into \<^verbatim>\<open>CAmount\<close>, and for every tag, in a ledger built by updates from
  the empty one: \<^const>\<open>GetBaseSubsidy\<close> is \<open>S div 2\<close>, and \<^const>\<open>GetAllowedSubsidy\<close> is
  the base subsidy plus \<open>floor (loyal_half * points / 24)\<close> with
  \<open>loyal_half = S - S div 2\<close>, where the points of a tag that was never seen are 0. At
  0 points this is the base subsidy, at 24 points it is exactly \<open>S\<close>.
\<close>

theorem allowed_subsidy_formula:
  "0 \<le> sint (GetBlockSubsidy E height) \<Longrightarrow>
   (sint (GetBlockSubsidy E height) - sint (GetBlockSubsidy E height) div 2) * 24
     \<le> 9223372036854775807 \<Longrightarrow>
   (let S = sint (GetBlockSubsidy E height);
        base_subsidy = S div 2;
        loyal_half = S - base_subsidy;
        g = connect_all E calls Map.empty;
        pts = (case g (HexStr E tag) of None \<Rightarrow> 0 | Some st \<Rightarrow> sint (points st));
        allowed = sint (GetAllowedSubsidy E tag height g)
    in sint (GetBaseSubsidy E height) = base_subsidy
       \<and> allowed = base_subsidy + (loyal_half * pts) div 24
       \<and> (pts = 0 \<longrightarrow> allowed = base_subsidy)
       \<and> (pts = 24 \<longrightarrow> allowed = S))"
proof -
  assume S0: "0 \<le> sint (GetBlockSubsidy E height)"
    and fit: "(sint (GetBlockSubsidy E height) - sint (GetBlockSubsidy E height) div 2) * 24
       \<le> 9223372036854775807"
  let ?g = "connect_all E calls Map.empty"
  let ?S = "sint (GetBlockSubsidy E height)"
  let ?pts = "case ?g (HexStr E tag) of None \<Rightarrow> 0 | Some st \<Rightarrow> sint (points st)"
  have same: "(case ?g (HexStr E tag) of None \<Rightarrow> 0
               | Some st \<Rightarrow> max 0 (min 24 (sint (points st)))) = ?pts"
  proof (cases "?g (HexStr E tag)")
    case None
    then show ?thesis by simp
  next
    case (Some st)
    then have "entry_ok st" by (rule reachable_ok)
    with Some show ?thesis by (simp add: entry_ok_def)
  qed
  have a: "sint (GetAllowedSubsidy E tag height ?g) = ?S div 2 + ((?S - ?S div 2) * ?pts) div 24"
    using allowed_sint [OF S0 fit, of tag ?g] by (simp only: same)
  have b: "sint (GetBaseSubsidy E height) = ?S div 2"
    using S0 by (rule base_sint)
  have c: "?pts = 24 \<Longrightarrow> ?S div 2 + ((?S - ?S div 2) * ?pts) div 24 = ?S"
    by simp
  show ?thesis
    unfolding Let_def using a b c by simp
qed

theorem allowed_subsidy_formula_witness:
  "0 \<le> sint (GetBlockSubsidy example_externals 30)
   \<and> (sint (GetBlockSubsidy example_externals 30) - sint (GetBlockSubsidy example_externals 30) div 2) * 24
       \<le> 9223372036854775807
   \<and> sint (GetBaseSubsidy example_externals 30) = 1250000000
   \<and> sint (GetAllowedSubsidy example_externals example_tag 30 Map.empty) = 1250000000
   \<and> sint (GetAllowedSubsidy example_externals example_tag 30
        (connect_all example_externals [(example_block, 5, 7), (example_block, 25, 9)] Map.empty))
      = 1406250000
   \<and> sint (GetAllowedSubsidy example_externals example_tag 120
        (connect_all example_externals
          [(example_block, 5, 7), (example_block, 15, 7), (example_block, 25, 7),
           (example_block, 35, 7), (example_block, 45, 7), (example_block, 55, 7),
           (example_block, 65, 7), (example_block, 75, 7), (example_block, 85, 7),
           (example_block, 95, 7), (example_block, 105, 7), (example_block, 115, 7)] Map.empty))
      = 2500000000"
proof -
  have h1: "0 \<le> sint (GetBlockSubsidy example_externals height)" for height
    by (simp add: example_schedule)
  have h2: "(sint (GetBlockSubsidy example_externals height)
              - sint (GetBlockSubsidy example_externals height) div 2) * 24
            \<le> 9223372036854775807" for height
    by (simp add: example_schedule)
  show ?thesis
    using allowed_subsidy_formula [OF h1 h2, of 30 "[]" example_tag]
      allowed_subsidy_formula [OF h1 h2, of 30 "[(example_block, 5, 7), (example_block, 25, 9)]" example_tag]
      allowed_subsidy_formula [OF h1 h2, of 120
          "[(example_block, 5, 7), (example_block, 15, 7), (example_block, 25, 7),
           (example_block, 35, 7), (example_block, 45, 7), (example_block, 55, 7),
           (example_block, 65, 7), (example_block, 75, 7), (example_block, 85, 7),
           (example_block, 95, 7), (example_block, 105, 7), (example_block, 115, 7)]" example_tag]
    by (simp add: example_second example_year example_key example_schedule Let_def connect_all_Nil)
qed

text \<open>
  C8. At a fixed height (with a schedule value as in C1), the allowed subsidy does not
  decrease with the points of the tag: of two ledgers, the one that holds at least as
  many points for the tag allows at least as much. A tag without an entry counts as 0
  points.
\<close>

theorem allowed_subsidy_monotone:
  "0 \<le> sint (GetBlockSubsidy E height) \<Longrightarrow>
   (sint (GetBlockSubsidy E height) - sint (GetBlockSubsidy E height) div 2) * 24
     \<le> 9223372036854775807 \<Longrightarrow>
   (case g1 (HexStr E tag) of None \<Rightarrow> 0 | Some st \<Rightarrow> sint (points st))
     \<le> (case g2 (HexStr E tag) of None \<Rightarrow> 0 | Some st \<Rightarrow> sint (points st)) \<Longrightarrow>
   sint (GetAllowedSubsidy E tag height g1) \<le> sint (GetAllowedSubsidy E tag height g2)"
proof -
  assume S0: "0 \<le> sint (GetBlockSubsidy E height)"
    and fit: "(sint (GetBlockSubsidy E height) - sint (GetBlockSubsidy E height) div 2) * 24
       \<le> 9223372036854775807"
    and le: "(case g1 (HexStr E tag) of None \<Rightarrow> 0 | Some st \<Rightarrow> sint (points st))
     \<le> (case g2 (HexStr E tag) of None \<Rightarrow> 0 | Some st \<Rightarrow> sint (points st))"
  let ?S = "sint (GetBlockSubsidy E height)"
  let ?q = "\<lambda>g. case g (HexStr E tag) of None \<Rightarrow> 0 | Some st \<Rightarrow> max 0 (min 24 (sint (points st)))"
  have q: "?q g1 \<le> ?q g2"
    using le by (auto split: option.splits)
  have l0: "0 \<le> ?S - ?S div 2"
    using S0 div_le_self_int [of ?S 2] by simp
  have "(?S - ?S div 2) * ?q g1 \<le> (?S - ?S div 2) * ?q g2"
    using q l0 by (rule mult_left_mono)
  then have "((?S - ?S div 2) * ?q g1) div 24 \<le> ((?S - ?S div 2) * ?q g2) div 24"
    by (intro zdiv_mono1) simp_all
  then show ?thesis
    using allowed_sint [OF S0 fit, of tag g1] allowed_sint [OF S0 fit, of tag g2] by simp
qed

theorem allowed_subsidy_monotone_witness:
  "0 \<le> sint (GetBlockSubsidy example_externals 30)
   \<and> (sint (GetBlockSubsidy example_externals 30) - sint (GetBlockSubsidy example_externals 30) div 2) * 24
       \<le> 9223372036854775807
   \<and> sint (GetAllowedSubsidy example_externals example_tag 30
         (OnConnectBlock example_externals example_block 5 7 Map.empty))
      \<le> sint (GetAllowedSubsidy example_externals example_tag 30
         (connect_all example_externals [(example_block, 5, 7), (example_block, 25, 9)] Map.empty))"
proof -
  have h1: "0 \<le> sint (GetBlockSubsidy example_externals 30)"
    by (simp add: example_schedule)
  have h2: "(sint (GetBlockSubsidy example_externals 30)
              - sint (GetBlockSubsidy example_externals 30) div 2) * 24
            \<le> 9223372036854775807"
    by (simp add: example_schedule)
  have h3: "(case OnConnectBlock example_externals example_block 5 7 Map.empty
                   (HexStr example_externals example_tag) of
              None \<Rightarrow> 0 | Some st \<Rightarrow> sint (points st))
            \<le> (case connect_all example_externals
                      [(example_block, 5, 7), (example_block, 25, 9)] Map.empty
                   (HexStr example_externals example_tag) of
              None \<Rightarrow> 0 | Some st \<Rightarrow> sint (points st))"
    by (simp add: example_first example_second example_key)
  show ?thesis
    using h1 h2
      allowed_subsidy_monotone
        [where ?g1.0 = "OnConnectBlock example_externals example_block 5 7 Map.empty"
           and ?g2.0 = "connect_all example_externals
                          [(example_block, 5, 7), (example_block, 25, 9)] Map.empty",
         OF h1 h2 h3]
    by simp
qed

section \<open>The extraction finds the first qualifying output\<close>

lemma kMflexId_length: "length kMflexId = 7"
  by (simp add: kMflexId_def)

lemma tag_of_output_spec: "tag_of_output E out = spec_qualifying_tag E out"
  by (auto simp: tag_of_output_def spec_qualifying_tag_def kMflexId_length Let_def
      split: option.splits prod.splits)

lemma scan_outputs_find:
  "scan_outputs E outs =
     (case List.find (\<lambda>out. spec_qualifying_tag E out \<noteq> None) outs of
        Some out \<Rightarrow> spec_qualifying_tag E out
      | None \<Rightarrow> None)"
  by (induction outs) (auto simp: tag_of_output_spec split: option.splits)

lemma scan_outputs_Some_iff:
  "scan_outputs E outs = Some tag \<longleftrightarrow>
     (\<exists>before out after. outs = before @ out # after
        \<and> (\<forall>x \<in> set before. spec_qualifying_tag E x = None)
        \<and> spec_qualifying_tag E out = Some tag)"
proof (induction outs)
  case Nil
  then show ?case by simp
next
  case (Cons a outs)
  show ?case
  proof (cases "spec_qualifying_tag E a")
    case None
    have "(\<exists>before out after. a # outs = before @ out # after
        \<and> (\<forall>x \<in> set before. spec_qualifying_tag E x = None)
        \<and> spec_qualifying_tag E out = Some tag)
      \<longleftrightarrow> (\<exists>before out after. outs = before @ out # after
        \<and> (\<forall>x \<in> set before. spec_qualifying_tag E x = None)
        \<and> spec_qualifying_tag E out = Some tag)" (is "?L \<longleftrightarrow> ?R")
    proof
      assume ?L
      then obtain before out after where
        e: "a # outs = before @ out # after"
        and b: "\<forall>x \<in> set before. spec_qualifying_tag E x = None"
        and t: "spec_qualifying_tag E out = Some tag" by blast
      from e t None obtain before' where "before = a # before'"
        by (cases before) auto
      with e b t show ?R by auto
    next
      assume ?R
      then obtain before out after where
        e: "outs = before @ out # after"
        and b: "\<forall>x \<in> set before. spec_qualifying_tag E x = None"
        and t: "spec_qualifying_tag E out = Some tag" by blast
      have "a # outs = (a # before) @ out # after" using e by simp
      moreover have "\<forall>x \<in> set (a # before). spec_qualifying_tag E x = None"
        using b None by simp
      ultimately show ?L using t by blast
    qed
    with None Cons.IH show ?thesis by (simp add: tag_of_output_spec)
  next
    case (Some t)
    have "(\<exists>before out after. a # outs = before @ out # after
        \<and> (\<forall>x \<in> set before. spec_qualifying_tag E x = None)
        \<and> spec_qualifying_tag E out = Some tag) \<longleftrightarrow> t = tag" (is "?L \<longleftrightarrow> _")
    proof
      assume ?L
      then obtain before out after where
        e: "a # outs = before @ out # after"
        and b: "\<forall>x \<in> set before. spec_qualifying_tag E x = None"
        and t: "spec_qualifying_tag E out = Some tag" by blast
      show "t = tag"
      proof (cases before)
        case Nil
        with e t Some show ?thesis by simp
      next
        case (Cons x xs)
        with e b Some show ?thesis by simp
      qed
    next
      assume "t = tag"
      then have "a # outs = [] @ a # outs \<and> (\<forall>x \<in> set []. spec_qualifying_tag E x = None)
         \<and> spec_qualifying_tag E a = Some tag" using Some by simp
      then show ?L by blast
    qed
    with Some show ?thesis by (simp add: tag_of_output_spec)
  qed
qed

text \<open>
  C5. \<^const>\<open>ExtractMinerTagFromBlock\<close> returns the tag of the first output of the coinbase
  whose script starts with the null-data opcode followed by a data push of the 7-byte
  prefix and exactly 4, 8 or 12 further bytes, and nothing otherwise: when the block has
  no transaction (or a null coinbase), when the coinbase has no output, and when no
  output qualifies, whatever the reason (the reader fails, the opcode, the prefix or the
  length is wrong). It is a total function: there is no input on which it fails.
\<close>

theorem extract_first_qualifying:
  "ExtractMinerTagFromBlock E block = spec_extract E block
   \<and> (ExtractMinerTagFromBlock E block = Some tag \<longleftrightarrow>
        (\<exists>coinbase rest before out after.
            vtx block = Some coinbase # rest
          \<and> vout coinbase = before @ out # after
          \<and> (\<forall>x \<in> set before. spec_qualifying_tag E x = None)
          \<and> spec_qualifying_tag E out = Some tag))"
proof
  show "ExtractMinerTagFromBlock E block = spec_extract E block"
    by (auto simp: ExtractMinerTagFromBlock_def spec_extract_def scan_outputs_find
        split: list.splits option.splits)
  show "ExtractMinerTagFromBlock E block = Some tag \<longleftrightarrow>
        (\<exists>coinbase rest before out after.
            vtx block = Some coinbase # rest
          \<and> vout coinbase = before @ out # after
          \<and> (\<forall>x \<in> set before. spec_qualifying_tag E x = None)
          \<and> spec_qualifying_tag E out = Some tag)"
  proof (cases "vtx block")
    case Nil
    then show ?thesis by (simp add: ExtractMinerTagFromBlock_def)
  next
    case (Cons c rest)
    show ?thesis
    proof (cases c)
      case None
      with Cons show ?thesis by (simp add: ExtractMinerTagFromBlock_def)
    next
      case (Some coinbase)
      have "ExtractMinerTagFromBlock E block = scan_outputs E (vout coinbase)"
        using Cons Some by (simp add: ExtractMinerTagFromBlock_def)
      then show ?thesis
        using Cons Some scan_outputs_Some_iff [of E "vout coinbase" tag] by simp
    qed
  qed
qed

lemma example_marker_tag: "spec_qualifying_tag example_externals example_marker = Some example_tag"
  by (simp add: spec_qualifying_tag_def example_externals_def example_marker_def GetScriptOp_def
      read_push_def OP_RETURN_def kMflexId_def example_tag_def)

lemma example_payout_tag: "spec_qualifying_tag example_externals example_payout = None"
  by (simp add: spec_qualifying_tag_def example_externals_def example_payout_def GetScriptOp_def
      read_push_def OP_RETURN_def)

theorem extract_first_qualifying_witness:
  "vtx example_block = Some \<lparr>vout = [example_payout, example_marker]\<rparr> # []
   \<and> spec_qualifying_tag example_externals example_payout = None
   \<and> spec_qualifying_tag example_externals example_marker = Some example_tag
   \<and> ExtractMinerTagFromBlock example_externals example_block = Some example_tag
   \<and> spec_extract example_externals example_block = Some example_tag
   \<and> spec_extract example_externals plain_block = None"
proof -
  have w: "\<exists>coinbase rest before out after.
            vtx example_block = Some coinbase # rest
          \<and> vout coinbase = before @ out # after
          \<and> (\<forall>x \<in> set before. spec_qualifying_tag example_externals x = None)
          \<and> spec_qualifying_tag example_externals out = Some example_tag"
    by (rule exI [of _ "\<lparr>vout = [example_payout, example_marker]\<rparr>"], rule exI [of _ "[]"],
        rule exI [of _ "[example_payout]"], rule exI [of _ example_marker], rule exI [of _ "[]"])
      (simp add: example_block_def example_payout_tag example_marker_tag)
  have a: "ExtractMinerTagFromBlock example_externals example_block = Some example_tag"
    using extract_first_qualifying [of example_externals example_block example_tag] w by blast
  have b: "spec_extract example_externals example_block = Some example_tag"
    using extract_first_qualifying [of example_externals example_block example_tag] a by simp
  have c: "spec_extract example_externals plain_block = None"
    using extract_first_qualifying [of example_externals plain_block example_tag]
    by (simp add: plain_extract)
  show ?thesis
    using a b c by (simp add: example_block_def example_payout_tag example_marker_tag)
qed

section \<open>Rebuild and live connection agree\<close>

lemma rebuild_loop_unfold:
  assumes "sint tip_height < 2147483647"
  shows "rebuild_loop E cm tip_height height g =
           Some (foldl (\<lambda>g' h. rebuild_step E cm h g') g
                   (map word_of_int [sint height .. sint tip_height]))"
proof (induction "nat (sint tip_height + 1 - sint height)" arbitrary: height g)
  case 0
  then have gt: "sint tip_height < sint height" by simp
  then have "\<not> height \<le>s tip_height" by (simp add: signed_cmp)
  then have "rebuild_loop E cm tip_height height g = Some g"
    by (subst rebuild_loop.simps) simp
  moreover have "[sint height .. sint tip_height] = []" using gt by simp
  ultimately show ?case by simp
next
  case (Suc n)
  then have le: "sint height \<le> sint tip_height" by simp
  have one: "sint (1 :: 32 word) = 1" by simp
  have nxt: "sint (height + 1) = sint height + 1"
    using le assms sint32_range [of height] sint32_add [of height 1] by (simp add: one)
  have n: "n = nat (sint tip_height + 1 - sint (height + 1))"
    using Suc.hyps(2) nxt by simp
  have "rebuild_loop E cm tip_height height g =
          rebuild_loop E cm tip_height (height + 1) (rebuild_step E cm height g)"
    using le by (subst rebuild_loop.simps) (simp add: signed_cmp)
  also have "\<dots> = Some (foldl (\<lambda>g' h. rebuild_step E cm h g') (rebuild_step E cm height g)
                   (map word_of_int [sint (height + 1) .. sint tip_height]))"
    using n by (rule Suc.hyps(1))
  also have "[sint height .. sint tip_height] = sint height # [sint (height + 1) .. sint tip_height]"
    using le by (simp add: upto_rec1 nxt)
  then have "foldl (\<lambda>g' h. rebuild_step E cm h g') (rebuild_step E cm height g)
                   (map word_of_int [sint (height + 1) .. sint tip_height])
      = foldl (\<lambda>g' h. rebuild_step E cm h g') g
                   (map word_of_int [sint height .. sint tip_height])"
    by simp
  finally show ?case .
qed

lemma connect_readable:
  "connect_all E
     (List.map_filter
       (\<lambda>height. case chain_at cm height of
                    None \<Rightarrow> None
                  | Some pindex \<Rightarrow>
                      (case ReadBlock cm pindex of
                         None \<Rightarrow> None
                       | Some block \<Rightarrow> Some (block, height, GetBlockTime pindex))) hs) g
   = foldl (\<lambda>g' h. rebuild_step E cm h g') g hs"
  by (induction hs arbitrary: g)
    (auto simp: connect_all_def map_filter_simps rebuild_step_def split: option.splits)

text \<open>
  C4. On a chain with a tip (of a height below \<open>2^31 - 1\<close>, so that the loop counter does
  not wrap), \<^const>\<open>RebuildFromActiveChain\<close> returns, and what it returns is the ledger that
  the live updates build from the empty ledger over the readable blocks from the start
  height to the tip, in increasing height order. The ledger it starts from does not
  matter, and rebuilding again gives the same ledger.
\<close>

theorem rebuild_equals_live:
  "Tip cm = Some tip \<Longrightarrow> sint (nHeight tip) < 2147483647 \<Longrightarrow>
   RebuildFromActiveChain E cm g =
     Some (connect_all E
             (readable_blocks cm (std_max 0 (GetPolStartHeight E)) (nHeight tip)) Map.empty)
   \<and> RebuildFromActiveChain E cm g' = RebuildFromActiveChain E cm g
   \<and> Option.bind (RebuildFromActiveChain E cm g) (RebuildFromActiveChain E cm)
       = RebuildFromActiveChain E cm g"
proof -
  assume t: "Tip cm = Some tip" and b: "sint (nHeight tip) < 2147483647"
  have r: "RebuildFromActiveChain E cm x =
     Some (connect_all E
             (readable_blocks cm (std_max 0 (GetPolStartHeight E)) (nHeight tip)) Map.empty)" for x
    using t rebuild_loop_unfold [OF b, of E cm "std_max 0 (GetPolStartHeight E)" Map.empty]
    by (simp add: RebuildFromActiveChain_def readable_blocks_def connect_readable)
  show ?thesis
    by (simp add: r)
qed

lemma example_rebuilt:
  "connect_all example_externals
     (readable_blocks example_chain (std_max 0 (GetPolStartHeight example_externals)) 2) Map.empty
   = [''deadbeef'' \<mapsto>
        \<lparr>seen = True, first_seen_height = 2, last_seen_height = 2, blocks_seen = 1,
         last_seen_time = 1751759706, points = 2, last_seen_month = 0\<rparr>]"
  by (simp add: readable_blocks_def example_config std_max_def signed_cmp upto_rec1
      map_filter_simps example_chain_def example_index_def connect_all_def OnConnectBlock_def
      example_extract example_key MonthIndex_def cpp_div_def update_entry_def
      MinerTagStatus_init_def clamp_def)

theorem rebuild_equals_live_witness:
  "Tip example_chain = Some (example_index 2)
   \<and> sint (nHeight (example_index 2)) < 2147483647
   \<and> RebuildFromActiveChain example_externals example_chain
        (OnConnectBlock example_externals example_block 5 7 Map.empty)
      = Some [''deadbeef'' \<mapsto>
               \<lparr>seen = True, first_seen_height = 2, last_seen_height = 2, blocks_seen = 1,
                last_seen_time = 1751759706, points = 2, last_seen_month = 0\<rparr>]"
proof -
  have h1: "Tip example_chain = Some (example_index 2)"
    by (simp add: example_chain_def)
  have h2: "sint (nHeight (example_index 2)) < 2147483647"
    by (simp add: example_index_def)
  show ?thesis
    using h1 h2
      rebuild_equals_live [OF h1 h2, of example_externals
        "OnConnectBlock example_externals example_block 5 7 Map.empty" Map.empty]
    by (simp add: example_rebuilt example_index_def)
qed

section \<open>The level in the three surfaces\<close>

lemma sint32_succ: "sint p < 2147483647 \<Longrightarrow> sint (p + 1 :: 32 word) = sint p + 1"
  using sint32_range [of p] sint32_add [of p 1] by simp

lemma half_up32:
  assumes "0 < sint p" "sint p < 2147483647"
  shows "sint (cpp_div (p + 1 :: 32 word) 2) = (sint p + 1) div 2"
  using assms by (simp add: sint_cpp_div32 sint32_succ)

lemma rpc_level_spec: "sint (PolLevelFromPoints_rpc is_seen pts) = spec_level is_seen (sint pts)"
proof (cases "is_seen \<and> 0 < sint pts")
  case False
  then show ?thesis
    by (auto simp: PolLevelFromPoints_rpc_def spec_level_def signed_cmp)
next
  case True
  show ?thesis
  proof (cases "24 < sint pts")
    case True
    have "cpp_div (24 + 1 :: 32 word) 2 = 12" by (simp add: cpp_div_def)
    moreover have "12 \<le> (sint pts + 1) div 2" using True by linarith
    ultimately show ?thesis
      using True \<open>is_seen \<and> 0 < sint pts\<close>
      by (simp add: PolLevelFromPoints_rpc_def spec_level_def signed_cmp std_min_def std_max_def)
  next
    case False
    with True have b: "0 < sint pts" "sint pts < 2147483647" by simp_all
    have h: "sint (cpp_div (pts + 1) 2) = (sint pts + 1) div 2"
      using b by (rule half_up32)
    have lo: "1 \<le> (sint pts + 1) div 2" using b by linarith
    have hi: "(sint pts + 1) div 2 \<le> 12" using False by linarith
    show ?thesis
      using True False h lo hi
      by (auto simp: PolLevelFromPoints_rpc_def spec_level_def signed_cmp std_min_def std_max_def
          Let_def)
  qed
qed

lemma overview_level_rpc: "PolLevelFromPoints_overview is_seen pts = PolLevelFromPoints_rpc is_seen pts"
  by (simp add: PolLevelFromPoints_overview_def PolLevelFromPoints_rpc_def Let_def)

lemma loyalty_level_spec:
  assumes "sint pts < 2147483647"
  shows "sint (PolLevelFromPoints_loyalty pts is_seen) = spec_level is_seen (sint pts)"
proof (cases "is_seen \<and> 0 < sint pts")
  case False
  then show ?thesis
    by (auto simp: PolLevelFromPoints_loyalty_def spec_level_def signed_cmp)
next
  case True
  then have b: "0 < sint pts" by simp
  have h: "sint (cpp_div (pts + 1) 2) = (sint pts + 1) div 2"
    using b assms by (rule half_up32)
  have lo: "1 \<le> (sint pts + 1) div 2" using b by linarith
  show ?thesis
    using True h lo
    by (auto simp: PolLevelFromPoints_loyalty_def spec_level_def signed_cmp Let_def)
qed

text \<open>
  C7. The level is the same function of (seen, points) in the RPC surface, in the
  overview page and in the loyalty page: 0 for a tag that is not seen or has no positive
  points, and otherwise half the points rounded up, between 1 and 12. This holds for
  every \<^verbatim>\<open>int\<close> but the one input where the source is undefined (seen with \<open>2^31 - 1\<close>
  points, where the loyalty page overflows). In particular (true, 0) is 0, (true, 1) and
  (true, 2) are 1, (true, 3) is 2, (true, 24) is 12, and (false, anything) is 0.
\<close>

theorem level_same_in_every_surface:
  assumes "is_seen \<longrightarrow> sint pts < 2147483647"
  shows "sint (PolLevelFromPoints_rpc is_seen pts) = spec_level is_seen (sint pts)
    \<and> sint (PolLevelFromPoints_overview is_seen pts) = spec_level is_seen (sint pts)
    \<and> sint (PolLevelFromPoints_loyalty pts is_seen) = spec_level is_seen (sint pts)
    \<and> PolLevelFromPoints_overview is_seen pts = PolLevelFromPoints_rpc is_seen pts
    \<and> PolLevelFromPoints_loyalty pts is_seen = PolLevelFromPoints_rpc is_seen pts
    \<and> spec_level True 0 = 0 \<and> spec_level True 1 = 1 \<and> spec_level True 2 = 1
    \<and> spec_level True 3 = 2 \<and> spec_level True 24 = 12 \<and> spec_level False (sint pts) = 0"
proof -
  have l: "sint (PolLevelFromPoints_loyalty pts is_seen) = spec_level is_seen (sint pts)"
  proof (cases is_seen)
    case True
    with assms show ?thesis by (simp add: loyalty_level_spec)
  next
    case False
    then show ?thesis by (simp add: PolLevelFromPoints_loyalty_def spec_level_def)
  qed
  have "sint (PolLevelFromPoints_loyalty pts is_seen) = sint (PolLevelFromPoints_rpc is_seen pts)"
    using l by (simp add: rpc_level_spec)
  then have e: "PolLevelFromPoints_loyalty pts is_seen = PolLevelFromPoints_rpc is_seen pts"
    by (rule signed_word_eqI)
  show ?thesis
    using l e by (simp add: rpc_level_spec overview_level_rpc spec_level_def)
qed

theorem level_same_in_every_surface_witness:
  "sint (3 :: int32_t) < 2147483647
   \<and> sint (PolLevelFromPoints_rpc True 0) = 0 \<and> sint (PolLevelFromPoints_loyalty 0 True) = 0
   \<and> sint (PolLevelFromPoints_rpc True 1) = 1 \<and> sint (PolLevelFromPoints_loyalty 1 True) = 1
   \<and> sint (PolLevelFromPoints_rpc True 2) = 1 \<and> sint (PolLevelFromPoints_loyalty 2 True) = 1
   \<and> sint (PolLevelFromPoints_rpc True 3) = 2 \<and> sint (PolLevelFromPoints_loyalty 3 True) = 2
   \<and> sint (PolLevelFromPoints_overview True 3) = 2
   \<and> sint (PolLevelFromPoints_rpc True 24) = 12 \<and> sint (PolLevelFromPoints_loyalty 24 True) = 12
   \<and> sint (PolLevelFromPoints_rpc True 1000) = 12
   \<and> sint (PolLevelFromPoints_loyalty 1000 True) = 12
   \<and> sint (PolLevelFromPoints_rpc False 2147483647) = 0
   \<and> sint (PolLevelFromPoints_loyalty 2147483647 False) = 0"
proof -
  have h: "True \<longrightarrow> sint (n :: int32_t) < 2147483647"
    if "sint n < 2147483647" for n using that by simp
  have f: "False \<longrightarrow> sint (2147483647 :: int32_t) < 2147483647" by simp
  show ?thesis
    using level_same_in_every_surface [OF h, of 0] level_same_in_every_surface [OF h, of 1]
      level_same_in_every_surface [OF h, of 2] level_same_in_every_surface [OF h, of 3]
      level_same_in_every_surface [OF h, of 24] level_same_in_every_surface [OF h, of 1000]
      level_same_in_every_surface [OF f]
    by (simp add: spec_level_def)
qed

lemma level_examples:
  "PolLevelFromPoints_rpc True 0 = 0" "PolLevelFromPoints_rpc True 1 = 1"
  "PolLevelFromPoints_rpc True 2 = 1" "PolLevelFromPoints_rpc True 3 = 2"
  "PolLevelFromPoints_rpc True 24 = 12" "PolLevelFromPoints_rpc False pts = 0"
  "PolLevelFromPoints_loyalty 0 True = 0" "PolLevelFromPoints_loyalty 1 True = 1"
  "PolLevelFromPoints_loyalty 2 True = 1" "PolLevelFromPoints_loyalty 3 True = 2"
  "PolLevelFromPoints_loyalty 24 True = 12" "PolLevelFromPoints_loyalty pts False = 0"
  by (simp_all add: PolLevelFromPoints_rpc_def PolLevelFromPoints_loyalty_def cpp_div_def
      std_min_def std_max_def signed_cmp)

end
